theory Spec2Isabelle
  imports Complex_Main "HOL-Library.Stream"
begin

section \<open>Chat generation module: generate\_chats\_v0.4.py\<close>

text \<open>
  The module draws all its randomness from Python's process-wide generator. The model makes
  every draw explicit. Floats are idealised as reals, Python's unbounded integers are
  \<^typ>\<open>int\<close>, and a \<open>datetime\<close> is the number of microseconds since
  0001-01-01T00:00:00 (the resolution of Python's \<open>datetime\<close>; its year range 1..9999 is
  not modelled). Exceptions are values of type \<open>error\<close>.
\<close>

datatype error =
  ZeroDivisionError | ValueError | IndexError | KeyError | AttributeError | TypeError | RecursionError

subsection \<open>The random source\<close>

text \<open>
  One iteration of the sampling loop of \<open>generate_random_points\<close> consumes, in this order,
  the value \<open>random.random()\<close> used inside \<open>random.uniform\<close> and the outcome of
  \<open>random.choice([True, False])\<close>. The state of the generator is the stream of the pairs
  still to come.
\<close>

type_synonym draw = "real \<times> bool"

type_synonym rng = "draw stream"

text \<open>\<open>random.random()\<close> returns a value of the half-open interval \<open>[0.0, 1.0)\<close>.\<close>

definition unit_draw :: "draw \<Rightarrow> bool" where
  "unit_draw d = (0 \<le> fst d \<and> fst d < 1)"

definition valid_rng :: "rng \<Rightarrow> bool" where
  "valid_rng r = (\<forall>d \<in> sset r. unit_draw d)"

text \<open>\<open>random.uniform(a, b)\<close> is \<open>a + (b - a) * random()\<close>.\<close>

definition uniform :: "real \<Rightarrow> real \<Rightarrow> real \<Rightarrow> real" where
  "uniform a b u = a + (b - a) * u"

subsection \<open>Python list slicing \<open>xs[:n]\<close>\<close>

text \<open>A negative bound counts from the end of the list.\<close>

definition slice_to :: "int \<Rightarrow> 'a list \<Rightarrow> 'a list" where
  "slice_to n xs = (if 0 \<le> n then take (nat n) xs else take (length xs - nat (- n)) xs)"

subsection \<open>MessageGenerator.generate\_random\_points\<close>

definition over_run_count :: int where
  "over_run_count = 10"

definition fuzz_range_min :: real where
  "fuzz_range_min = 1"

definition fuzz_range_max :: "int \<Rightarrow> int \<Rightarrow> int" where
  "fuzz_range_max duration count = duration - (count + (over_run_count * 2))"

definition count_with_overrun :: "int \<Rightarrow> int" where
  "count_with_overrun count = count + over_run_count"

text \<open>
  \<open>duration / count_with_overrun\<close> is Python's true division; it raises
  \<open>ZeroDivisionError\<close> for a zero divisor, which \<open>generate_random_points\<close> checks before
  using this value.
\<close>

definition mean_response_time :: "int \<Rightarrow> int \<Rightarrow> real" where
  "mean_response_time duration count = real_of_int duration / real_of_int (count_with_overrun count)"

text \<open>The body of the loop: \<open>fuzz\<close> is drawn first, then the coin.\<close>

definition fuzzed_time :: "real \<Rightarrow> real \<Rightarrow> draw \<Rightarrow> real" where
  "fuzzed_time mean fmax d =
     (let fuzz = uniform fuzz_range_min fmax (fst d)
      in if snd d then mean + fuzz else max (mean - fuzz) 1)"

text \<open>\<open>for _ in range(n): ... points.append(fuzzed_time)\<close>, threading the generator.\<close>

fun points_loop :: "nat \<Rightarrow> real \<Rightarrow> real \<Rightarrow> real list \<Rightarrow> rng \<Rightarrow> real list \<times> rng" where
  "points_loop 0 mean fmax points r = (points, r)"
| "points_loop (Suc n) mean fmax points r =
     points_loop n mean fmax (points @ [fuzzed_time mean fmax (shd r)]) (stl r)"

text \<open>
  One attempt: everything between the entry of \<open>generate_random_points\<close> and the test of
  the sum, for a non-zero \<open>count_with_overrun\<close>. \<open>range\<close> of a negative number is empty.
\<close>

definition attempt :: "int \<Rightarrow> int \<Rightarrow> rng \<Rightarrow> real list \<times> rng" where
  "attempt duration count r =
     (let (points, r') =
            points_loop (nat (count_with_overrun count + over_run_count))
              (mean_response_time duration count)
              (real_of_int (fuzz_range_max duration count)) [] r
      in (slice_to count points, r'))"

text \<open>
  The function calls itself with no bound on the number of attempts. Taken by itself, the
  source is a partial function: \<open>None\<close> is the run that never returns a list.
\<close>

partial_function (option) generate_random_points ::
    "int \<Rightarrow> int \<Rightarrow> rng \<Rightarrow> (error + real list \<times> rng) option" where
  "generate_random_points duration count r =
     (if count_with_overrun count = 0 then Some (Inl ZeroDivisionError)
      else
        (case attempt duration count r of
           (points, r') \<Rightarrow>
             if sum_list points > real_of_int duration then Some (Inr (points, r'))
             else generate_random_points duration count r'))"

text \<open>
  The retry is a call of the function by itself, not a loop, so each rejected attempt
  leaves a frame on the interpreter's stack. CPython allows a bounded number of nested
  calls (\<open>sys.getrecursionlimit()\<close>, 1000 by default, less the frames already in use) and
  raises \<open>RecursionError\<close> at the call that would exceed it. \<open>depth\<close> is the number of
  nested calls of \<open>generate_random_points\<close> that the interpreter still allows.
\<close>

fun generate_random_points_limited ::
    "nat \<Rightarrow> int \<Rightarrow> int \<Rightarrow> rng \<Rightarrow> error + real list \<times> rng" where
  "generate_random_points_limited 0 duration count r = Inl RecursionError"
| "generate_random_points_limited (Suc depth) duration count r =
     (if count_with_overrun count = 0 then Inl ZeroDivisionError
      else
        (case attempt duration count r of
           (points, r') \<Rightarrow>
             if sum_list points > real_of_int duration then Inr (points, r')
             else generate_random_points_limited depth duration count r'))"

text \<open>
  Auxiliary notions for stating properties of the retry recursion: the generator state
  after \<open>k\<close> attempts, the \<open>k\<close>-th attempt, and the acceptance test of the source.
\<close>

definition rng_after :: "int \<Rightarrow> int \<Rightarrow> nat \<Rightarrow> rng \<Rightarrow> rng" where
  "rng_after duration count k r = ((\<lambda>s. snd (attempt duration count s)) ^^ k) r"

definition nth_attempt :: "int \<Rightarrow> int \<Rightarrow> nat \<Rightarrow> rng \<Rightarrow> real list \<times> rng" where
  "nth_attempt duration count k r = attempt duration count (rng_after duration count k r)"

definition accepted :: "int \<Rightarrow> real list \<Rightarrow> bool" where
  "accepted duration points = (sum_list points > real_of_int duration)"

subsection \<open>Instants and durations\<close>

type_synonym datetime = int

type_synonym timedelta = int

text \<open>Python's \<open>round\<close>: to the nearest integer, a tie going to the even neighbour.\<close>

definition round_half_even :: "real \<Rightarrow> int" where
  "round_half_even x =
     (let f = \<lfloor>x\<rfloor>; rest = x - real_of_int f
      in if rest < 1 / 2 then f
         else if 1 / 2 < rest then f + 1
         else if even f then f else f + 1)"

text \<open>\<open>int(x)\<close> of a float truncates towards zero.\<close>

definition py_int :: "real \<Rightarrow> int" where
  "py_int x = (if 0 \<le> x then \<lfloor>x\<rfloor> else \<lceil>x\<rceil>)"

text \<open>
  \<open>timedelta(days=.., hours=.., minutes=.., seconds=.., milliseconds=..)\<close>: the sum in
  microseconds, rounded half-even.
\<close>

definition timedelta :: "real \<Rightarrow> real \<Rightarrow> real \<Rightarrow> real \<Rightarrow> real \<Rightarrow> timedelta" where
  "timedelta days hours minutes seconds milliseconds =
     round_half_even (days * 86400000000 + hours * 3600000000 + minutes * 60000000
        + seconds * 1000000 + milliseconds * 1000)"

definition total_seconds :: "timedelta \<Rightarrow> real" where
  "total_seconds td = real_of_int td / 1000000"

subsection \<open>MessageGenerator.generate\_random\_message\_datetimes\<close>

definition generate_random_message_datetimes ::
    "datetime \<Rightarrow> datetime \<Rightarrow> int \<Rightarrow> rng \<Rightarrow> (error + datetime list \<times> rng) option" where
  "generate_random_message_datetimes start end count r =
     (let time_difference = py_int (total_seconds (end - start))
      in case generate_random_points time_difference count r of
           None \<Rightarrow> None
         | Some (Inl e) \<Rightarrow> Some (Inl e)
         | Some (Inr (deltas, r')) \<Rightarrow>
             Some (Inr (map (\<lambda>delta. start + timedelta 0 0 0 delta 0) deltas, r')))"

subsection \<open>Discrete draws\<close>

text \<open>
  \<open>random.randint\<close> and \<open>random.choice\<close> reduce the generator's bits to a number below
  the size of the range; the natural number \<open>k\<close> stands for those bits.
\<close>

definition randint :: "int \<Rightarrow> int \<Rightarrow> nat \<Rightarrow> error + int" where
  "randint a b k = (if b < a then Inl ValueError else Inr (a + int (k mod nat (b - a + 1))))"

definition random_choice :: "'a list \<Rightarrow> nat \<Rightarrow> error + 'a" where
  "random_choice seq k = (if seq = [] then Inl IndexError else Inr (seq ! (k mod length seq)))"

definition bind_error :: "error + 'a \<Rightarrow> ('a \<Rightarrow> error + 'b) \<Rightarrow> error + 'b" where
  "bind_error m f = (case m of Inl e \<Rightarrow> Inl e | Inr x \<Rightarrow> f x)"

fun sequence_error :: "(error + 'a) list \<Rightarrow> error + 'a list" where
  "sequence_error [] = Inr []"
| "sequence_error (m # ms) =
     bind_error m (\<lambda>x. bind_error (sequence_error ms) (\<lambda>xs. Inr (x # xs)))"

subsection \<open>MessageGenerator.weighted\_random\_message\_count\<close>

text \<open>\<open>itertools.accumulate\<close>: the running sums.\<close>

fun accumulate_from :: "real \<Rightarrow> real list \<Rightarrow> real list" where
  "accumulate_from acc [] = []"
| "accumulate_from acc (w # ws) = (acc + w) # accumulate_from (acc + w) ws"

definition accumulate :: "real list \<Rightarrow> real list" where
  "accumulate ws = accumulate_from 0 ws"

text \<open>
  \<open>bisect.bisect_right(a, x, lo, hi)\<close>: \<open>while lo < hi: mid = (lo + hi) // 2;
  if x < a[mid]: hi = mid else: lo = mid + 1\<close>.
\<close>

function bisect_right :: "real list \<Rightarrow> real \<Rightarrow> nat \<Rightarrow> nat \<Rightarrow> nat" where
  "bisect_right a x lo hi =
     (if lo < hi
      then (let mid = (lo + hi) div 2
            in if x < a ! mid then bisect_right a x lo mid else bisect_right a x (mid + 1) hi)
      else lo)"
  by pat_completeness auto
termination
  by (relation "measure (\<lambda>(a, x, lo, hi). hi - lo)") auto

declare bisect_right.simps [simp del]

text \<open>\<open>random.choices(population, weights=weights, k=1)[0]\<close>, with \<open>u = random()\<close>.\<close>

definition choices :: "'a list \<Rightarrow> real list \<Rightarrow> real \<Rightarrow> error + 'a" where
  "choices population weights u =
     (let n = length population; cum_weights = accumulate weights
      in if length cum_weights \<noteq> n then Inl ValueError
         else if cum_weights = [] then Inl IndexError
         else (let total = last cum_weights
               in if total \<le> 0 then Inl ValueError
                  else Inr (population ! bisect_right cum_weights (u * total) 0 (n - 1))))"

text \<open>
  The draws of one call: \<open>u1\<close> for the first \<open>random.choices\<close>, \<open>u2\<close> for the second
  (made in the first branch only), \<open>g\<close> the value of \<open>random.gauss(25, 10)\<close> (second branch
  only).
\<close>

definition weighted_random_message_count :: "real \<Rightarrow> real \<Rightarrow> real \<Rightarrow> error + int" where
  "weighted_random_message_count u1 u2 g =
     bind_error (choices [1, 2 :: int] [0.5, 0.5] u1) (\<lambda>weighted_choice.
       if weighted_choice = 1 then choices [1, 2, 3, 4] [0.3, 0.3, 0.2, 0.2] u2
       else (let normal_choice = py_int g in Inr (max 1 (min 50 normal_choice))))"

subsection \<open>ParticipantGenerator.generate\_distant\_style\_ids\<close>

text \<open>\<open>range(start, stop, step)\<close> as the list of its elements.\<close>

definition py_range :: "int \<Rightarrow> int \<Rightarrow> int \<Rightarrow> error + int list" where
  "py_range start stop step =
     (if step = 0 then Inl ValueError
      else (let len = (if 0 < step
                       then (if start < stop then (stop - start - 1) div step + 1 else 0)
                       else (if stop < start then (start - stop - 1) div (- step) + 1 else 0))
            in Inr (map (\<lambda>i. start + int i * step) [0..<nat len])))"

text \<open>\<open>xs[i]\<close>: an index below zero is taken from the end, one outside the list raises.\<close>

definition getitem :: "'a list \<Rightarrow> int \<Rightarrow> error + 'a" where
  "getitem xs i =
     (if 0 \<le> i \<and> i < int (length xs) then Inr (xs ! nat i)
      else if i < 0 \<and> - int (length xs) \<le> i then Inr (xs ! nat (int (length xs) + i))
      else Inl IndexError)"

text \<open>
  \<open>STYLE_ID_TO_COLOR\<close> is a dictionary of the configuration module, which is not part of
  the sources; it is a parameter, given as the list of its items in insertion order.
\<close>

definition generate_distant_style_ids :: "(int \<times> string) list \<Rightarrow> int \<Rightarrow> error + int list" where
  "generate_distant_style_ids STYLE_ID_TO_COLOR n =
     (let available_ids = map fst STYLE_ID_TO_COLOR
      in if n > int (length available_ids) then Inl ValueError
         else if n = 0 then Inl ZeroDivisionError
         else (let step = int (length available_ids) div n
               in bind_error (py_range 0 (int (length available_ids)) step) (\<lambda>selected_indices.
                  bind_error (sequence_error (map (getitem available_ids) selected_indices)) (\<lambda>ids.
                  Inr (slice_to n ids)))))"

subsection \<open>The data classes\<close>

text \<open>
  A dataclass does not check its annotations, so a field holds whatever value it is given.
  The values \<open>exhibit_number\<close> may hold are integers and tuples of integers.
\<close>

datatype pyval = PyInt int | PyTuple "int list"

datatype pytype = TInt | TTuple

fun isinstance :: "pyval \<Rightarrow> pytype \<Rightarrow> bool" where
  "isinstance (PyInt i) t = (t = TInt)"
| "isinstance (PyTuple xs) t = (t = TTuple)"

record Exhibit =
  uuid :: string
  case_id :: string
  exhibit_number :: pyval
  police_number :: string
  extraction_date :: datetime
  name :: string

text \<open>The annotation \<open>exhibit_number: int\<close> of the data class.\<close>

definition exhibit_number_annotation :: pytype where
  "exhibit_number_annotation = TInt"

record Attachment =
  uuid :: string
  type :: string
  file_name :: string
  file_location :: string
  message_uuid :: string
  sender_uuid :: string

text \<open>
  Two field names are words of the theory language and are renamed: \<open>text\<close> of a
  message is \<open>msg_text\<close>, \<open>notes\<close> of the case data is \<open>case_notes\<close>. In the functions
  below, a local variable that has the name of a field carries a prime.
\<close>

record Message =
  sender_uuid :: string
  uuid :: string
  has_attachment :: bool
  send_datetime :: "datetime option"
  sent_status :: bool
  msg_text :: string
  delivered_datetime :: "datetime option"
  delivered_status :: bool
  read_datetime :: "datetime option"
  read_status :: bool
  deleted_datetime :: "datetime option"
  deleted_status :: bool
  platform_name :: string
  exhibit_uuid :: string

record CaseData =
  file_number :: string
  case_number :: string
  operation_name :: string
  start_date :: datetime
  end_date :: datetime
  exhibits_used :: "string list"
  case_notes :: string

subsection \<open>The configuration module\<close>

text \<open>
  \<open>generator_config\<close> is not part of the sources. The constants that the modelled
  functions read are the fields of a parameter; a dictionary is the list of its items.
\<close>

record type_config =
  files :: "string list"
  path :: string

record config =
  ATTACHMENT_LIKELIHOOD :: real
  SENT_LIKELIHOOD :: real
  DELIVERED_LIKELIHOOD :: real
  READ_LIKELIHOOD :: real
  DELETED_LIKELIHOOD :: real
  MESSAGE_TIMING :: "(string \<times> int \<times> int) list"
  ATTACHMENT_TYPES :: "(string \<times> type_config) list"
  MESSAGE_TEXTS :: "string list"

text \<open>
  A configuration under which \<open>generate_message\<close> cannot raise: the three delay ranges
  exist and are not empty, there is a message text, and there is an attachment type, each
  type with a file.
\<close>

definition valid_config :: "config \<Rightarrow> bool" where
  "valid_config cfg =
     ((\<forall>key \<in> {''DELIVERY_DELAY'', ''READ_DELAY'', ''DELETE_DELAY''}.
          \<exists>a b. map_of (MESSAGE_TIMING cfg) key = Some (a, b) \<and> a \<le> b)
      \<and> MESSAGE_TEXTS cfg \<noteq> []
      \<and> ATTACHMENT_TYPES cfg \<noteq> []
      \<and> (\<forall>entry \<in> set (ATTACHMENT_TYPES cfg). files (snd entry) \<noteq> []))"

text \<open>\<open>d[k]\<close> on a dictionary.\<close>

definition lookup :: "('k \<times> 'v) list \<Rightarrow> 'k \<Rightarrow> error + 'v" where
  "lookup d k = (case map_of d k of None \<Rightarrow> Inl KeyError | Some v \<Rightarrow> Inr v)"

text \<open>\<open>os.path.join\<close> of two components, on POSIX.\<close>

definition path_join :: "string \<Rightarrow> string \<Rightarrow> string" where
  "path_join a b =
     (if b \<noteq> [] \<and> hd b = CHR ''/'' then b
      else if a = [] \<or> last a = CHR ''/'' then a @ b
      else a @ ''/'' @ b)"

subsection \<open>AttachmentGenerator.generate\_attachment\<close>

text \<open>The draws: the index behind \<open>random.choice\<close> and the value of \<open>uuid.uuid4()\<close>.\<close>

definition generate_attachment ::
    "config \<Rightarrow> string \<Rightarrow> string \<Rightarrow> string \<Rightarrow> nat \<Rightarrow> string \<Rightarrow> error + Attachment" where
  "generate_attachment cfg attachment_type message_uuid' sender_uuid' file_draw uuid4 =
     bind_error (lookup (ATTACHMENT_TYPES cfg) attachment_type) (\<lambda>type_config.
     bind_error (random_choice (files type_config) file_draw) (\<lambda>file_name'.
       (let file_location' = path_join (path type_config) file_name'
        in Inr \<lparr>Attachment.uuid = uuid4, type = attachment_type, file_name = file_name',
                 file_location = file_location', message_uuid = message_uuid',
                 Attachment.sender_uuid = sender_uuid'\<rparr>)))"

subsection \<open>MessageGenerator.generate\_message\<close>

text \<open>
  The draws of one call, named after what they decide. A \<open>_random\<close> field is a value of
  \<open>random.random()\<close>; a \<open>_draw\<close> field of type \<open>nat\<close> is the index behind
  \<open>randint\<close> or \<open>choice\<close>; \<open>attachment_draws i\<close> holds the draws of the \<open>i\<close>-th
  attachment (its type, its file, its uuid).
\<close>

record message_draws =
  message_uuid4 :: string
  attachment_random :: real
  sent_random :: real
  delivered_random :: real
  delivery_delay_draw :: nat
  read_random :: real
  read_delay_draw :: nat
  deleted_random :: real
  delete_delay_draw :: nat
  attachment_count_draw :: nat
  attachment_draws :: "nat \<Rightarrow> nat \<times> nat \<times> string"
  text_draw :: nat

text \<open>
  \<open>status\<close> set: \<open>min_delay, max_delay = MESSAGE_TIMING[key]\<close> and
  \<open>ref_dt + timedelta(seconds=random.randint(min_delay, max_delay))\<close>; otherwise \<open>None\<close>.
\<close>

definition delayed_datetime ::
    "config \<Rightarrow> bool \<Rightarrow> string \<Rightarrow> datetime \<Rightarrow> nat \<Rightarrow> error + datetime option" where
  "delayed_datetime cfg status key ref_dt k =
     (if status
      then bind_error (lookup (MESSAGE_TIMING cfg) key) (\<lambda>(min_delay, max_delay).
           bind_error (randint min_delay max_delay k) (\<lambda>delay.
             Inr (Some (ref_dt + timedelta 0 0 0 (real_of_int delay) 0))))
      else Inr None)"

definition generate_message ::
    "config \<Rightarrow> message_draws \<Rightarrow> datetime \<Rightarrow> string \<Rightarrow> string \<Rightarrow> string
      \<Rightarrow> error + Message \<times> Attachment list" where
  "generate_message cfg dr ref_dt participant_uuid exhibit_uuid' platform_name' =
     (let message_uuid' = message_uuid4 dr;
          has_attachment' = (attachment_random dr < ATTACHMENT_LIKELIHOOD cfg);
          sent_status' = (sent_random dr < SENT_LIKELIHOOD cfg);
          send_datetime' = (if sent_status' then Some ref_dt else None);
          delivered_status' = (sent_status' \<and> delivered_random dr < DELIVERED_LIKELIHOOD cfg)
      in bind_error (delayed_datetime cfg delivered_status' ''DELIVERY_DELAY'' ref_dt
                       (delivery_delay_draw dr)) (\<lambda>delivered_datetime'.
         (let read_status' = (delivered_status' \<and> read_random dr < READ_LIKELIHOOD cfg)
          in bind_error (delayed_datetime cfg read_status' ''READ_DELAY'' ref_dt
                           (read_delay_draw dr)) (\<lambda>read_datetime'.
         (let deleted_status' = (deleted_random dr < DELETED_LIKELIHOOD cfg)
          in bind_error (delayed_datetime cfg deleted_status' ''DELETE_DELAY'' ref_dt
                           (delete_delay_draw dr)) (\<lambda>deleted_datetime'.
         bind_error
           (if has_attachment'
            then bind_error (randint 1 4 (attachment_count_draw dr)) (\<lambda>attachment_count.
                 sequence_error
                   (map (\<lambda>i. case attachment_draws dr i of
                               (type_draw, file_draw, uuid4) \<Rightarrow>
                                 bind_error (random_choice (map fst (ATTACHMENT_TYPES cfg)) type_draw)
                                   (\<lambda>attachment_type.
                                      generate_attachment cfg attachment_type message_uuid'
                                        participant_uuid file_draw uuid4))
                      [0..<nat attachment_count]))
            else Inr []) (\<lambda>attachments.
         bind_error (random_choice (MESSAGE_TEXTS cfg) (text_draw dr)) (\<lambda>text'.
           Inr (\<lparr>sender_uuid = participant_uuid, uuid = message_uuid',
                  has_attachment = has_attachment', send_datetime = send_datetime',
                  sent_status = sent_status', msg_text = text',
                  delivered_datetime = delivered_datetime', delivered_status = delivered_status',
                  read_datetime = read_datetime', read_status = read_status',
                  deleted_datetime = deleted_datetime', deleted_status = deleted_status',
                  platform_name = platform_name', exhibit_uuid = exhibit_uuid'\<rparr>,
                attachments)))))))))"

subsection \<open>What ChatBuilder does with the messages\<close>

text \<open>
  \<open>self.messages.sort(key=lambda x: x.send_datetime)\<close>. Sorting compares the keys with
  \<open><\<close>, which raises \<open>TypeError\<close> when an operand is \<open>None\<close>; a list of two or more
  elements compares every key at least once, a shorter one compares nothing. The sort is
  stable.
\<close>

definition sort_messages :: "Message list \<Rightarrow> error + Message list" where
  "sort_messages messages =
     (if 2 \<le> length messages \<and> list_ex (\<lambda>x. send_datetime x = None) messages
      then Inl TypeError
      else Inr (sort_key (\<lambda>x. the (send_datetime x)) messages))"

text \<open>
  The \<open>"messages"\<close> entry built by \<open>save\<close>:
  \<open>{msg.send_datetime.isoformat(): asdict(msg) for msg in self.messages}\<close>. The key is kept
  as the instant that \<open>isoformat\<close> prints; calling \<open>isoformat\<close> on \<open>None\<close> raises
  \<open>AttributeError\<close>.
\<close>

fun messages_dict :: "Message list \<Rightarrow> (datetime \<rightharpoonup> Message) \<Rightarrow> error + (datetime \<rightharpoonup> Message)" where
  "messages_dict [] d = Inr d"
| "messages_dict (msg # msgs) d =
     (case send_datetime msg of
        None \<Rightarrow> Inl AttributeError
      | Some dt \<Rightarrow> messages_dict msgs (d(dt \<mapsto> msg)))"

subsection \<open>ExhibitGenerator\<close>

text \<open>\<open>str\<close> of an integer, as an f-string formats it.\<close>

fun str_nat :: "nat \<Rightarrow> string" where
  "str_nat n =
     (if n < 10 then [''0123456789'' ! n]
      else str_nat (n div 10) @ [''0123456789'' ! (n mod 10)])"

declare str_nat.simps [simp del]

definition str_int :: "int \<Rightarrow> string" where
  "str_int i = (if i < 0 then ''-'' @ str_nat (nat (- i)) else str_nat (nat i))"

text \<open>\<open>x[i]\<close> on a value: a tuple is indexed, an integer is not subscriptable.\<close>

fun subscript :: "pyval \<Rightarrow> int \<Rightarrow> error + pyval" where
  "subscript (PyTuple xs) i = bind_error (getitem xs i) (\<lambda>x. Inr (PyInt x))"
| "subscript (PyInt n) i = Inl TypeError"

text \<open>How an f-string prints a value.\<close>

fun join_comma :: "string list \<Rightarrow> string" where
  "join_comma [] = []"
| "join_comma [s] = s"
| "join_comma (s # t # ss) = s @ '', '' @ join_comma (t # ss)"

fun py_str :: "pyval \<Rightarrow> string" where
  "py_str (PyInt i) = str_int i"
| "py_str (PyTuple [x]) = ''('' @ str_int x @ '',)''"
| "py_str (PyTuple xs) = ''('' @ join_comma (map str_int xs) @ '')''"

text \<open>\<open>s.replace(c, '')\<close> for a single character \<open>c\<close>.\<close>

definition remove_char :: "char \<Rightarrow> string \<Rightarrow> string" where
  "remove_char c s = filter (\<lambda>x. x \<noteq> c) s"

definition allowed_chars :: string where
  "allowed_chars =
     remove_char CHR ''0'' (remove_char CHR ''O'' (remove_char CHR ''l'' (remove_char CHR ''I''
       (''abcdefghijklmnopqrstuvwxyzABCDEFGHIJKLMNOPQRSTUVWXYZ'' @ ''0123456789''))))"

text \<open>\<open>''.join(random.choice(allowed_chars) for _ in range(6))\<close>; \<open>ks i\<close> is the \<open>i\<close>-th draw.\<close>

definition generate_random_exhibit_ID :: "(nat \<Rightarrow> nat) \<Rightarrow> error + string" where
  "generate_random_exhibit_ID ks =
     sequence_error (map (\<lambda>i. random_choice allowed_chars (ks i)) [0..<6])"

record exhibit_draws =
  exhibit_uuid4 :: string
  police_id_draws :: "nat \<Rightarrow> nat"
  exhibit_number_draw :: nat
  days_draw :: nat
  hours_draw :: nat
  minutes_draw :: nat
  seconds_draw :: nat
  milliseconds_draw :: nat

text \<open>
  \<open>exhibit_number=random.randint(1, 20),\<close> ends with a comma: the statement binds a
  one-element tuple. \<open>now\<close> is the value of \<open>datetime.now()\<close>.
\<close>

definition generate_exhibit :: "datetime \<Rightarrow> exhibit_draws \<Rightarrow> CaseData \<Rightarrow> error + Exhibit" where
  "generate_exhibit now dr case_data =
     (let exhibit_uuid' = exhibit_uuid4 dr
      in bind_error (generate_random_exhibit_ID (police_id_draws dr)) (\<lambda>police_id.
         bind_error (randint 1 20 (exhibit_number_draw dr)) (\<lambda>n.
         (let exhibit_number' = PyTuple [n]
          in bind_error (randint 1 5 (days_draw dr)) (\<lambda>days.
             bind_error (randint 1 24 (hours_draw dr)) (\<lambda>hours.
             bind_error (randint 1 61 (minutes_draw dr)) (\<lambda>minutes.
             bind_error (randint 1 61 (seconds_draw dr)) (\<lambda>seconds.
             bind_error (randint 1 1001 (milliseconds_draw dr)) (\<lambda>milliseconds.
             (let extraction_date' =
                    now - timedelta (real_of_int days) (real_of_int hours) (real_of_int minutes)
                            (real_of_int seconds) (real_of_int milliseconds)
              in bind_error (subscript exhibit_number' 0) (\<lambda>first.
                 Inr \<lparr>Exhibit.uuid = exhibit_uuid', case_id = case_number case_data,
                       exhibit_number = exhibit_number', police_number = police_id,
                       extraction_date = extraction_date',
                       name = case_number case_data @ ''_'' @ py_str first
                                @ '' ('' @ police_id @ '')''\<rparr>)))))))))))"

section \<open>Properties\<close>

subsection \<open>The sampling loop and the retry recursion\<close>

lemma points_loop_eq:
  "points_loop n mean fmax ps r = (ps @ map (fuzzed_time mean fmax) (stake n r), sdrop n r)"
  by (induction n arbitrary: ps r) simp_all

lemma attempt_eq:
  "attempt duration count r =
     (slice_to count (map (fuzzed_time (real_of_int duration / real_of_int (count + 10)) (real_of_int (duration - (count + 20))))
        (stake (nat (count + 20)) r)), sdrop (nat (count + 20)) r)"
  by (simp add: attempt_def points_loop_eq mean_response_time_def fuzz_range_max_def
      count_with_overrun_def over_run_count_def add.commute)

lemma sdrop_sconst: "sdrop n (sconst x) = sconst x"
  by (induction n) simp_all

lemma stake_sconst: "stake n (sconst x) = replicate n x"
  by (induction n) (simp_all del: stake_siterate add: replicate_append_same)

lemma sset_sdrop: "sset (sdrop n s) \<subseteq> sset s"
  by (auto simp: sset_range sdrop_snth)

lemma valid_rng_sdrop: "valid_rng r \<Longrightarrow> valid_rng (sdrop n r)"
  unfolding valid_rng_def using sset_sdrop [of n r] by auto

lemma set_stake_sset: "set (stake n s) \<subseteq> sset s"
  by (auto simp: in_set_conv_nth sset_range)

lemma valid_rng_attempt: "valid_rng r \<Longrightarrow> valid_rng (snd (attempt duration count r))"
  by (simp add: attempt_eq valid_rng_sdrop)

lemma valid_rng_after: "valid_rng r \<Longrightarrow> valid_rng (rng_after duration count k r)"
  unfolding rng_after_def by (induction k) (simp_all add: valid_rng_attempt)

lemma rng_after_Suc: "rng_after duration count (Suc k) r = rng_after duration count k (snd (attempt duration count r))"
  unfolding rng_after_def using funpow_swap1 [of "\<lambda>s. snd (attempt duration count s)" k r] by simp

lemma nth_attempt_0: "nth_attempt duration count 0 r = attempt duration count r"
  by (simp add: nth_attempt_def rng_after_def)

lemma nth_attempt_Suc:
  "nth_attempt duration count (Suc k) r = nth_attempt duration count k (snd (attempt duration count r))"
  by (simp only: nth_attempt_def rng_after_Suc)

lemma grp_step:
  "count_with_overrun count \<noteq> 0 \<Longrightarrow>
   generate_random_points duration count r =
     (if accepted duration (fst (attempt duration count r)) then Some (Inr (attempt duration count r))
      else generate_random_points duration count (snd (attempt duration count r)))"
  by (subst generate_random_points.simps) (simp add: accepted_def split: prod.splits)

lemma grp_zero:
  "count_with_overrun count = 0 \<Longrightarrow> generate_random_points duration count r = Some (Inl ZeroDivisionError)"
  by (subst generate_random_points.simps) simp


lemma grp_first_accepted:
  assumes "count_with_overrun count \<noteq> 0"
    and "accepted duration (fst (nth_attempt duration count k r))"
    and "\<forall>j<k. \<not> accepted duration (fst (nth_attempt duration count j r))"
  shows "generate_random_points duration count r = Some (Inr (nth_attempt duration count k r))"
  using assms(2,3)
proof (induction k arbitrary: r)
  case 0
  then show ?case using assms(1) by (simp add: grp_step nth_attempt_0)
next
  case (Suc k)
  let ?r' = "snd (attempt duration count r)"
  from Suc.prems(2) have "\<not> accepted duration (fst (nth_attempt duration count 0 r))" by blast
  then have rej: "\<not> accepted duration (fst (attempt duration count r))"
    by (simp add: nth_attempt_0)
  have acc: "accepted duration (fst (nth_attempt duration count k ?r'))"
    using Suc.prems(1) by (simp add: nth_attempt_Suc)
  have before: "\<forall>j<k. \<not> accepted duration (fst (nth_attempt duration count j ?r'))"
  proof (intro allI impI)
    fix j assume "j < k"
    then have "Suc j < Suc k" by simp
    with Suc.prems(2) have "\<not> accepted duration (fst (nth_attempt duration count (Suc j) r))" by blast
    then show "\<not> accepted duration (fst (nth_attempt duration count j ?r'))"
      by (simp add: nth_attempt_Suc)
  qed
  have "generate_random_points duration count ?r' = Some (Inr (nth_attempt duration count k ?r'))"
    by (rule Suc.IH [OF acc before])
  moreover have "generate_random_points duration count r = generate_random_points duration count ?r'"
    using rej assms(1) by (simp add: grp_step [of count duration r])
  ultimately show ?case by (simp add: nth_attempt_Suc)
qed

lemma grp_returns:
  assumes "generate_random_points duration count r = Some res"
  shows "count_with_overrun count \<noteq> 0 \<longrightarrow>
         (\<exists>k. res = Inr (nth_attempt duration count k r)
           \<and> accepted duration (fst (nth_attempt duration count k r))
           \<and> (\<forall>j<k. \<not> accepted duration (fst (nth_attempt duration count j r))))"
proof (rule generate_random_points.raw_induct
    [where P = "\<lambda>duration count r res. count_with_overrun count \<noteq> 0 \<longrightarrow>
         (\<exists>k. res = Inr (nth_attempt duration count k r)
           \<and> accepted duration (fst (nth_attempt duration count k r))
           \<and> (\<forall>j<k. \<not> accepted duration (fst (nth_attempt duration count j r))))",
     OF _ assms], goal_cases)
  case (1 grp duration count r res)
  show ?case
  proof
    assume nz: "count_with_overrun count \<noteq> 0"
    show "\<exists>k. res = Inr (nth_attempt duration count k r)
           \<and> accepted duration (fst (nth_attempt duration count k r))
           \<and> (\<forall>j<k. \<not> accepted duration (fst (nth_attempt duration count j r)))"
    proof (cases "accepted duration (fst (attempt duration count r))")
      case True
      with 1(2) nz have "res = Inr (attempt duration count r)"
        by (auto simp: accepted_def split: prod.splits)
      with True have "res = Inr (nth_attempt duration count 0 r)
           \<and> accepted duration (fst (nth_attempt duration count 0 r))
           \<and> (\<forall>j<0. \<not> accepted duration (fst (nth_attempt duration count j r)))"
        by (simp add: nth_attempt_0)
      then show ?thesis by blast
    next
      case False
      let ?r' = "snd (attempt duration count r)"
      from False 1(2) nz have "grp duration count ?r' = Some res"
        by (auto simp: accepted_def split: prod.splits)
      from 1(1) [OF this] nz have "\<exists>k. res = Inr (nth_attempt duration count k ?r')
           \<and> accepted duration (fst (nth_attempt duration count k ?r'))
           \<and> (\<forall>j<k. \<not> accepted duration (fst (nth_attempt duration count j ?r')))"
        by (rule mp)
      then obtain k where k:
        "res = Inr (nth_attempt duration count k ?r')"
        "accepted duration (fst (nth_attempt duration count k ?r'))"
        "\<forall>j<k. \<not> accepted duration (fst (nth_attempt duration count j ?r'))"
        by blast
      have "\<forall>j<Suc k. \<not> accepted duration (fst (nth_attempt duration count j r))"
      proof (intro allI impI)
        fix j assume "j < Suc k"
        show "\<not> accepted duration (fst (nth_attempt duration count j r))"
        proof (cases j)
          case 0
          then show ?thesis using False by (simp add: nth_attempt_0)
        next
          case (Suc i)
          then show ?thesis using k(3) \<open>j < Suc k\<close> by (simp add: nth_attempt_Suc)
        qed
      qed
      with k(1,2) have "res = Inr (nth_attempt duration count (Suc k) r)
           \<and> accepted duration (fst (nth_attempt duration count (Suc k) r))
           \<and> (\<forall>j<Suc k. \<not> accepted duration (fst (nth_attempt duration count j r)))"
        by (simp add: nth_attempt_Suc)
      then show ?thesis by blast
    qed
  qed
qed

lemma attempt_length: "0 \<le> count \<Longrightarrow> length (fst (attempt duration count r)) = nat count"
  by (simp add: attempt_eq slice_to_def)

lemma count_with_overrun_nonzero: "0 \<le> count \<Longrightarrow> count_with_overrun count \<noteq> 0"
  by (simp add: count_with_overrun_def over_run_count_def)

lemma attempt_sconst:
  "attempt duration 1 (sconst d) =
     ([fuzzed_time (real_of_int duration / 11) (real_of_int duration - 21) d], sconst d)"
  by (simp add: attempt_eq slice_to_def stake_sconst sdrop_sconst del: stake_siterate sdrop_siterate)

lemma attempt_shift_21:
  "attempt duration 1 (replicate 21 d @- s) =
     ([fuzzed_time (real_of_int duration / 11) (real_of_int duration - 21) d], s)"
  by (simp add: attempt_eq slice_to_def stake_shift sdrop_shift)

subsection \<open>The accept/reject polarity of the sum test\<close>

text \<open>
  Claim C1. With a non-zero \<open>count_with_overrun\<close>, \<open>generate_random_points\<close> returns the
  truncated list of an attempt exactly when the sum of that list is strictly greater than
  \<open>duration\<close>, and otherwise drops the list and starts again from the generator state the
  attempt left. Hence it returns \<open>res\<close> if and only if \<open>res\<close> is the outcome of the first
  attempt whose sum exceeds \<open>duration\<close>, every earlier attempt having a sum of at most
  \<open>duration\<close>. For a non-negative \<open>count\<close> the truncated list has \<open>count\<close> entries.
\<close>

theorem generate_random_points_accept_reject:
  assumes "count_with_overrun count \<noteq> 0"
  shows "generate_random_points duration count r =
           (if sum_list (fst (attempt duration count r)) > real_of_int duration
            then Some (Inr (attempt duration count r))
            else generate_random_points duration count (snd (attempt duration count r)))
         \<and> (generate_random_points duration count r = Some res \<longleftrightarrow>
             (\<exists>k. res = Inr (nth_attempt duration count k r)
                \<and> sum_list (fst (nth_attempt duration count k r)) > real_of_int duration
                \<and> (\<forall>j<k. sum_list (fst (nth_attempt duration count j r)) \<le> real_of_int duration)))
         \<and> (0 \<le> count \<longrightarrow> length (fst (attempt duration count r)) = nat count)"
proof (intro conjI)
  show "generate_random_points duration count r =
           (if sum_list (fst (attempt duration count r)) > real_of_int duration
            then Some (Inr (attempt duration count r))
            else generate_random_points duration count (snd (attempt duration count r)))"
    using grp_step [OF assms, of duration r] by (simp add: accepted_def)
  show "generate_random_points duration count r = Some res \<longleftrightarrow>
             (\<exists>k. res = Inr (nth_attempt duration count k r)
                \<and> sum_list (fst (nth_attempt duration count k r)) > real_of_int duration
                \<and> (\<forall>j<k. sum_list (fst (nth_attempt duration count j r)) \<le> real_of_int duration))"
    (is "?lhs \<longleftrightarrow> ?rhs")
  proof
    assume ?lhs
    from grp_returns [OF this] assms show ?rhs
      by (simp add: accepted_def not_less)
  next
    assume ?rhs
    then obtain k where k: "res = Inr (nth_attempt duration count k r)"
      "accepted duration (fst (nth_attempt duration count k r))"
      "\<forall>j<k. \<not> accepted duration (fst (nth_attempt duration count j r))"
      by (auto simp: accepted_def not_less)
    from grp_first_accepted [OF assms k(2,3)] k(1) show ?lhs by simp
  qed
  show "0 \<le> count \<longrightarrow> length (fst (attempt duration count r)) = nat count"
    by (simp add: attempt_length)
qed

text \<open>
  An instance: \<open>duration = 1100\<close>, \<open>count = 1\<close>. The first 21 draws are \<open>(1/2, True)\<close>:
  the mean is 100, the fuzz \<open>1 + 1078 / 2 = 540\<close>, the offset 640, which is rejected. All later
  draws are \<open>(31/32, True)\<close>: the fuzz is \<open>1 + 1078 * 31 / 32\<close>, the offset
  \<open>18325 / 16 = 1145.3125\<close>, which is accepted.
\<close>

theorem generate_random_points_accept_reject_witness:
  "count_with_overrun 1 \<noteq> 0
   \<and> generate_random_points 1100 1 (replicate 21 (1 / 2, True) @- sconst (31 / 32, True))
       = Some (Inr ([18325 / 16], sconst (31 / 32, True)))
   \<and> sum_list [640 :: real] \<le> 1100 \<and> sum_list [18325 / 16 :: real] > 1100
   \<and> length [18325 / 16 :: real] = nat 1"
proof -
  have nz: "count_with_overrun 1 \<noteq> 0"
    by (simp add: count_with_overrun_def over_run_count_def)
  have a1: "attempt 1100 1 (replicate 21 (1 / 2, True) @- sconst (31 / 32, True))
              = ([640], sconst (31 / 32, True))"
    by (simp add: attempt_shift_21 fuzzed_time_def uniform_def fuzz_range_min_def)
  have a2: "attempt 1100 1 (sconst (31 / 32, True)) = ([18325 / 16], sconst (31 / 32, True))"
    by (simp add: attempt_sconst fuzzed_time_def uniform_def fuzz_range_min_def)
  have "generate_random_points 1100 1 (replicate 21 (1 / 2, True) @- sconst (31 / 32, True))
          = generate_random_points 1100 1 (sconst (31 / 32, True))"
    using generate_random_points_accept_reject [OF nz, of 1100 "replicate 21 (1 / 2, True) @- sconst (31 / 32, True)"]
    by (simp add: a1)
  moreover have "generate_random_points 1100 1 (sconst (31 / 32, True))
          = Some (Inr ([18325 / 16], sconst (31 / 32, True)))"
    using generate_random_points_accept_reject [OF nz, of 1100 "sconst (31 / 32, True)"]
    by (simp add: a2)
  ultimately show ?thesis using nz by simp
qed

subsection \<open>The length of the returned list\<close>

text \<open>
  Claim C6. Whenever \<open>generate_random_points\<close> returns for a non-negative \<open>count\<close>, the
  returned list of offsets has exactly \<open>count\<close> entries: the \<open>count + 20\<close> candidates are
  cut to the first \<open>count\<close> before the sum is tested.
\<close>

theorem generate_random_points_length:
  assumes "0 \<le> count"
    and "generate_random_points duration count r = Some (Inr (points, r'))"
  shows "length points = nat count"
proof -
  from grp_returns [OF assms(2)] count_with_overrun_nonzero [OF assms(1)]
  obtain k where "(points, r') = nth_attempt duration count k r" by auto
  then have "points = fst (attempt duration count (rng_after duration count k r))"
    by (metis fst_conv nth_attempt_def)
  then show ?thesis using assms(1) by (simp add: attempt_length)
qed

theorem generate_random_points_length_witness:
  "(0::int) \<le> 1
   \<and> generate_random_points 1100 1 (sconst (31 / 32, True))
       = Some (Inr ([18325 / 16], sconst (31 / 32, True)))
   \<and> length [18325 / 16 :: real] = nat 1"
proof -
  have a2: "attempt 1100 1 (sconst (31 / 32, True)) = ([18325 / 16], sconst (31 / 32, True))"
    by (simp add: attempt_sconst fuzzed_time_def uniform_def fuzz_range_min_def)
  have ret: "generate_random_points 1100 1 (sconst (31 / 32, True))
          = Some (Inr ([18325 / 16], sconst (31 / 32, True)))"
    by (subst grp_step) (simp_all add: count_with_overrun_def over_run_count_def a2 accepted_def)
  from generate_random_points_length [OF _ ret] show ?thesis using ret by simp
qed

subsection \<open>The mean spacing\<close>

text \<open>
  Claim C5, as the code has it. The mean of an attempt is \<open>duration / (count + 10)\<close>: the
  divisor is \<open>count_with_overrun = count + over_run_count\<close>. The number \<open>count + 2 * 10\<close> is
  the number of candidates that the loop draws (and the amount subtracted from \<open>duration\<close> in
  \<open>fuzz_range_max\<close>), not the divisor of the mean.
\<close>

theorem mean_response_time_denominator:
  "mean_response_time duration count = real_of_int duration / real_of_int (count + 10)
   \<and> fst (attempt duration count r) =
       slice_to count
         (map (fuzzed_time (real_of_int duration / real_of_int (count + 10))
                 (real_of_int (duration - (count + 2 * 10))))
            (stake (nat (count + 2 * 10)) r))"
  by (simp add: attempt_eq mean_response_time_def count_with_overrun_def over_run_count_def)

text \<open>
  For \<open>duration = 60\<close> and \<open>count = 10\<close> the code's mean is \<open>60 / 20 = 3\<close>, whereas
  \<open>duration / (count_with_overrun + over_run_count)\<close> would be \<open>60 / 30 = 2\<close>.
\<close>

theorem mean_response_time_denominator_counterexample:
  "mean_response_time 60 10 = 3
   \<and> 60 / real_of_int (count_with_overrun 10 + over_run_count) = 2
   \<and> mean_response_time 60 10 \<noteq> 60 / real_of_int (count_with_overrun 10 + over_run_count)"
  by (simp add: mean_response_time_def count_with_overrun_def over_run_count_def)

subsection \<open>Bounds on the candidates of one attempt\<close>

lemma uniform_bounds:
  assumes "0 \<le> u" "u < 1" "1 \<le> fmax"
  shows "1 \<le> uniform fuzz_range_min fmax u" "uniform fuzz_range_min fmax u \<le> fmax"
proof -
  have "0 \<le> (fmax - 1) * u" using assms by simp
  then show "1 \<le> uniform fuzz_range_min fmax u"
    by (simp add: uniform_def fuzz_range_min_def)
  have "(fmax - 1) * u \<le> (fmax - 1) * 1"
    using assms by (intro mult_left_mono) simp_all
  then show "uniform fuzz_range_min fmax u \<le> fmax"
    by (simp add: uniform_def fuzz_range_min_def)
qed

lemma fuzzed_time_bounds:
  assumes "unit_draw d" "1 \<le> fmax" "0 \<le> mean"
  shows "1 \<le> fuzzed_time mean fmax d \<and> fuzzed_time mean fmax d \<le> mean + fmax"
proof -
  from assms(1) have u: "0 \<le> fst d" "fst d < 1" by (simp_all add: unit_draw_def)
  note b = uniform_bounds [OF u assms(2)]
  show ?thesis
    using b assms(2,3) by (auto simp: fuzzed_time_def Let_def max_def)
qed

lemma set_slice_to: "set (slice_to n xs) \<subseteq> set xs"
  by (auto simp: slice_to_def dest: in_set_takeD)

lemma attempt_points_bounds:
  assumes "valid_rng s" "0 \<le> count" "count + 21 \<le> duration"
    and "x \<in> set (fst (attempt duration count s))"
  shows "1 \<le> x \<and> x \<le> mean_response_time duration count + real_of_int (fuzz_range_max duration count)"
proof -
  let ?mean = "mean_response_time duration count"
  let ?fmax = "real_of_int (fuzz_range_max duration count)"
  have "fst (attempt duration count s) =
      slice_to count (map (fuzzed_time ?mean ?fmax) (stake (nat (count + 20)) s))"
    by (simp add: attempt_eq mean_response_time_def fuzz_range_max_def count_with_overrun_def
        over_run_count_def)
  with assms(4) set_slice_to [of count "map (fuzzed_time ?mean ?fmax) (stake (nat (count + 20)) s)"]
  have "x \<in> set (map (fuzzed_time ?mean ?fmax) (stake (nat (count + 20)) s))"
    by auto
  then obtain d where d: "d \<in> set (stake (nat (count + 20)) s)" "x = fuzzed_time ?mean ?fmax d"
    by auto
  from d(1) set_stake_sset [of "nat (count + 20)" s] have "d \<in> sset s" by (rule subsetD [rotated])
  with assms(1) have "unit_draw d"
    by (simp add: valid_rng_def)
  moreover have "1 \<le> ?fmax"
    using assms(3) by (simp add: fuzz_range_max_def over_run_count_def)
  moreover have "0 \<le> ?mean"
    using assms(2,3) by (simp add: mean_response_time_def count_with_overrun_def over_run_count_def)
  ultimately show ?thesis using fuzzed_time_bounds d(2) by blast
qed

lemma sum_list_le_length_times:
  fixes xs :: "real list"
  shows "(\<And>x. x \<in> set xs \<Longrightarrow> x \<le> B) \<Longrightarrow> sum_list xs \<le> real (length xs) * B"
proof (induction xs)
  case Nil
  then show ?case by simp
next
  case (Cons a xs)
  have "a \<le> B" using Cons.prems by simp
  moreover have "sum_list xs \<le> real (length xs) * B"
    using Cons.IH Cons.prems by simp
  ultimately show ?case by (simp add: algebra_simps)
qed

lemma grp_returns_attempt:
  assumes "generate_random_points duration count r = Some res"
    and "count_with_overrun count \<noteq> 0" and "valid_rng r"
  shows "\<exists>s. valid_rng s \<and> res = Inr (attempt duration count s)
              \<and> accepted duration (fst (attempt duration count s))"
proof -
  from grp_returns [OF assms(1)] assms(2) obtain k where
    "res = Inr (nth_attempt duration count k r)"
    "accepted duration (fst (nth_attempt duration count k r))" by blast
  then have "valid_rng (rng_after duration count k r)
       \<and> res = Inr (attempt duration count (rng_after duration count k r))
       \<and> accepted duration (fst (attempt duration count (rng_after duration count k r)))"
    using valid_rng_after [OF assms(3)] by (simp add: nth_attempt_def)
  then show ?thesis by blast
qed

lemma never_accepted_never_returns:
  assumes "count_with_overrun count \<noteq> 0"
    and "\<forall>s. valid_rng s \<longrightarrow> \<not> accepted duration (fst (attempt duration count s))"
    and "valid_rng r"
  shows "generate_random_points duration count r = None"
proof (cases "generate_random_points duration count r")
  case None
  then show ?thesis .
next
  case (Some res)
  from grp_returns_attempt [OF Some assms(1,3)] assms(2) show ?thesis by blast
qed

lemma never_accepted_100_1:
  assumes "valid_rng s"
  shows "\<not> accepted 100 (fst (attempt 100 1 s))"
proof -
  let ?ps = "fst (attempt 100 1 s)"
  have len: "length ?ps = 1"
    using attempt_length [of 1 100 s] by simp
  have b: "x \<le> 100 / 11 + 79" if "x \<in> set ?ps" for x
    using attempt_points_bounds [OF assms, of 1 100 x] that
    by (simp add: mean_response_time_def fuzz_range_max_def count_with_overrun_def over_run_count_def)
  have "sum_list ?ps \<le> real (length ?ps) * (100 / 11 + 79)"
    by (rule sum_list_le_length_times) (rule b)
  with len have "sum_list ?ps \<le> 100 / 11 + 79" by simp
  then show ?thesis by (simp add: accepted_def)
qed

subsection \<open>Inputs on which the retry never succeeds\<close>

lemma valid_rng_sconst: "0 \<le> u \<Longrightarrow> u < 1 \<Longrightarrow> valid_rng (sconst (u, b))"
  by (simp add: valid_rng_def unit_draw_def)

text \<open>
  The model with a recursion limit agrees with the source taken by itself: it makes the
  same attempts in the same order, returns the first accepted one if that comes within
  \<open>depth\<close> nested calls, and raises \<open>RecursionError\<close> otherwise.
\<close>

lemma limited_step:
  "count_with_overrun count \<noteq> 0 \<Longrightarrow>
   generate_random_points_limited (Suc depth) duration count r =
     (if accepted duration (fst (attempt duration count r)) then Inr (attempt duration count r)
      else generate_random_points_limited depth duration count (snd (attempt duration count r)))"
  by (simp add: accepted_def split: prod.splits)

lemma limited_never_accepted:
  assumes "count_with_overrun count \<noteq> 0"
    and "\<forall>s. valid_rng s \<longrightarrow> \<not> accepted duration (fst (attempt duration count s))"
    and "valid_rng r"
  shows "generate_random_points_limited depth duration count r = Inl RecursionError"
  using assms(3)
proof (induction depth arbitrary: r)
  case 0
  then show ?case by simp
next
  case (Suc depth)
  from Suc.prems assms(2) have "\<not> accepted duration (fst (attempt duration count r))" by blast
  moreover have "generate_random_points_limited depth duration count (snd (attempt duration count r))
      = Inl RecursionError"
    by (rule Suc.IH) (rule valid_rng_attempt [OF Suc.prems])
  ultimately show ?case by (simp only: limited_step [OF assms(1)] if_False)
qed

lemma limited_returns_unbounded:
  "generate_random_points_limited depth duration count r = Inr res \<Longrightarrow>
   generate_random_points duration count r = Some (Inr res)"
proof (induction depth arbitrary: r)
  case 0
  then show ?case by simp
next
  case (Suc depth)
  from Suc.prems have nz: "count_with_overrun count \<noteq> 0"
    by (auto split: if_splits)
  show ?case
  proof (cases "accepted duration (fst (attempt duration count r))")
    case True
    with Suc.prems nz have "res = attempt duration count r"
      by (simp only: limited_step [OF nz] if_True sum.inject)
    with True nz show ?thesis by (simp add: grp_step)
  next
    case False
    with Suc.prems nz have
      "generate_random_points_limited depth duration count (snd (attempt duration count r)) = Inr res"
      by (simp only: limited_step [OF nz] if_False)
    from Suc.IH [OF this] False nz show ?thesis by (simp add: grp_step)
  qed
qed

lemma limited_first_accepted:
  assumes "count_with_overrun count \<noteq> 0"
    and "accepted duration (fst (nth_attempt duration count k r))"
    and "\<forall>j<k. \<not> accepted duration (fst (nth_attempt duration count j r))"
  shows "generate_random_points_limited depth duration count r =
           (if k < depth then Inr (nth_attempt duration count k r) else Inl RecursionError)"
  using assms(2,3)
proof (induction depth arbitrary: k r)
  case 0
  then show ?case by simp
next
  case (Suc depth)
  show ?case
  proof (cases k)
    case 0
    with Suc.prems(1) have "accepted duration (fst (attempt duration count r))"
      by (simp add: nth_attempt_0)
    then show ?thesis using 0
      by (simp add: limited_step [OF assms(1)] nth_attempt_0 del: generate_random_points_limited.simps)
  next
    case (Suc i)
    let ?r' = "snd (attempt duration count r)"
    from Suc.prems(2) Suc have "\<not> accepted duration (fst (nth_attempt duration count 0 r))" by blast
    then have rej: "\<not> accepted duration (fst (attempt duration count r))"
      by (simp add: nth_attempt_0)
    have acc: "accepted duration (fst (nth_attempt duration count i ?r'))"
      using Suc.prems(1) Suc by (simp add: nth_attempt_Suc)
    have before: "\<forall>j<i. \<not> accepted duration (fst (nth_attempt duration count j ?r'))"
    proof (intro allI impI)
      fix j assume "j < i"
      then have "Suc j < k" using Suc by simp
      with Suc.prems(2) have "\<not> accepted duration (fst (nth_attempt duration count (Suc j) r))" by blast
      then show "\<not> accepted duration (fst (nth_attempt duration count j ?r'))"
        by (simp add: nth_attempt_Suc)
    qed
    have "generate_random_points_limited depth duration count ?r' =
           (if i < depth then Inr (nth_attempt duration count i ?r') else Inl RecursionError)"
      by (rule Suc.IH [OF acc before])
    with rej Suc show ?thesis
      by (simp add: limited_step [OF assms(1)] nth_attempt_Suc del: generate_random_points_limited.simps)
  qed
qed

text \<open>
  The draws of the instance above (first attempt rejected, second accepted) need two nested
  calls.
\<close>

lemma limited_example:
  "generate_random_points_limited 1 1100 1 (replicate 21 (1 / 2, True) @- sconst (31 / 32, True))
     = Inl RecursionError
   \<and> generate_random_points_limited 2 1100 1 (replicate 21 (1 / 2, True) @- sconst (31 / 32, True))
     = Inr ([18325 / 16], sconst (31 / 32, True))"
proof -
  have nz: "count_with_overrun 1 \<noteq> 0"
    by (simp add: count_with_overrun_def over_run_count_def)
  have a1: "attempt 1100 1 (replicate 21 (1 / 2, True) @- sconst (31 / 32, True))
              = ([640], sconst (31 / 32, True))"
    by (simp add: attempt_shift_21 fuzzed_time_def uniform_def fuzz_range_min_def)
  have a2: "attempt 1100 1 (sconst (31 / 32, True)) = ([18325 / 16], sconst (31 / 32, True))"
    by (simp add: attempt_sconst fuzzed_time_def uniform_def fuzz_range_min_def)
  have one: "(1::nat) = Suc 0" and two: "(2::nat) = Suc (Suc 0)" by simp_all
  show ?thesis
    unfolding one two
    by (simp add: limited_step [OF nz] a1 a2 accepted_def del: generate_random_points_limited.simps(2))
qed

text \<open>
  Claim C4, as the code has it. There are inputs whose acceptance test can never succeed:
  for \<open>duration = 100\<close> and \<open>count = 1\<close> the only offset of an attempt is at most
  \<open>100 / 11 + 79\<close>, whatever is drawn, so its sum never exceeds 100. On every such input
  (a non-zero \<open>count_with_overrun\<close> and no draws that make the sum of an attempt exceed
  \<open>duration\<close>) no sequence of draws makes the function return a list: the source has no
  retry ceiling of its own, and since each retry is a nested call, the run ends with
  \<open>RecursionError\<close> when the nested calls that the interpreter allows are used up, whatever
  their number.
\<close>

theorem generate_random_points_recursion_error:
  "(valid_rng r \<longrightarrow>
      generate_random_points_limited depth 100 1 r = Inl RecursionError
    \<and> generate_random_points 100 1 r = None)
   \<and> (count_with_overrun count \<noteq> 0
        \<and> (\<forall>s. valid_rng s \<longrightarrow> sum_list (fst (attempt duration count s)) \<le> real_of_int duration)
        \<and> valid_rng r
       \<longrightarrow> generate_random_points_limited depth duration count r = Inl RecursionError
         \<and> generate_random_points duration count r = None)"
proof (intro conjI impI)
  assume v: "valid_rng r"
  have nz: "count_with_overrun 1 \<noteq> 0"
    by (simp add: count_with_overrun_def over_run_count_def)
  have rej: "\<forall>s. valid_rng s \<longrightarrow> \<not> accepted 100 (fst (attempt 100 1 s))"
    using never_accepted_100_1 by blast
  show "generate_random_points_limited depth 100 1 r = Inl RecursionError"
    by (rule limited_never_accepted [OF nz rej v])
  show "generate_random_points 100 1 r = None"
    by (rule never_accepted_never_returns [OF nz rej v])
next
  assume a: "count_with_overrun count \<noteq> 0
        \<and> (\<forall>s. valid_rng s \<longrightarrow> sum_list (fst (attempt duration count s)) \<le> real_of_int duration)
        \<and> valid_rng r"
  then have rej: "\<forall>s. valid_rng s \<longrightarrow> \<not> accepted duration (fst (attempt duration count s))"
    by (simp add: accepted_def not_less)
  from a have nz: "count_with_overrun count \<noteq> 0" and v: "valid_rng r" by simp_all
  show "generate_random_points_limited depth duration count r = Inl RecursionError"
    by (rule limited_never_accepted [OF nz rej v])
  show "generate_random_points duration count r = None"
    by (rule never_accepted_never_returns [OF nz rej v])
qed

text \<open>An instance: \<open>duration = 100\<close>, \<open>count = 1\<close>, every draw \<open>(31/32, False)\<close>.\<close>

theorem generate_random_points_recursion_error_witness:
  "valid_rng (sconst (31 / 32, False))
   \<and> count_with_overrun 1 \<noteq> 0
   \<and> generate_random_points_limited 3 100 1 (sconst (31 / 32, False)) = Inl RecursionError
   \<and> generate_random_points 100 1 (sconst (31 / 32, False)) = None"
proof -
  have v: "valid_rng (sconst (31 / 32, False))"
    by (simp add: valid_rng_sconst)
  have nz: "count_with_overrun 1 \<noteq> 0"
    by (simp add: count_with_overrun_def over_run_count_def)
  have rej: "\<forall>s. valid_rng s \<longrightarrow> sum_list (fst (attempt 100 1 s)) \<le> real_of_int 100"
    using never_accepted_100_1 by (simp add: accepted_def not_less)
  from generate_random_points_recursion_error [of "sconst (31 / 32, False)" 3 1 100] v nz rej
  show ?thesis by blast
qed

text \<open>
  The run does end: with 994 nested calls available (the default limit of 1000 less the
  frames already in use) and every draw \<open>(1/2, True)\<close>, the call for \<open>duration = 100\<close>,
  \<open>count = 1\<close> rejects 994 attempts and raises \<open>RecursionError\<close>.
\<close>

theorem generate_random_points_terminates_counterexample:
  "generate_random_points_limited 994 100 1 (sconst (1 / 2, True)) = Inl RecursionError"
proof -
  have nz: "count_with_overrun 1 \<noteq> 0"
    by (simp add: count_with_overrun_def over_run_count_def)
  have rej: "\<forall>s. valid_rng s \<longrightarrow> \<not> accepted 100 (fst (attempt 100 1 s))"
    using never_accepted_100_1 by blast
  have v: "valid_rng (sconst (1 / 2, True))"
    by (simp add: valid_rng_sconst)
  show ?thesis by (rule limited_never_accepted [OF nz rej v])
qed

subsection \<open>The range of the returned offsets\<close>

text \<open>
  Claim C2, as the code has it. Let \<open>count\<close> be positive and \<open>duration \<ge> count + 21\<close>, so
  that the fuzz range \<open>[1, fuzz_range_max]\<close> is not inverted. Then every offset that
  \<open>generate_random_points\<close> returns is at least 1 and at most
  \<open>mean_response_time + fuzz_range_max\<close>, that is
  \<open>duration / (count + 10) + duration - (count + 20)\<close>, and the returned offsets sum to more
  than \<open>duration\<close>. The offsets are not bounded by \<open>duration\<close>.
\<close>

theorem generate_random_points_offset_bounds:
  assumes "valid_rng r" and "1 \<le> count" and "count + 21 \<le> duration"
    and "generate_random_points duration count r = Some (Inr (points, r'))"
    and "x \<in> set points"
  shows "1 \<le> x
       \<and> x \<le> mean_response_time duration count + real_of_int (fuzz_range_max duration count)
       \<and> sum_list points > real_of_int duration"
proof -
  have nz: "count_with_overrun count \<noteq> 0"
    using assms(2) by (simp add: count_with_overrun_def over_run_count_def)
  from grp_returns_attempt [OF assms(4) nz assms(1)] obtain s where s:
    "valid_rng s" "(points, r') = attempt duration count s"
    "accepted duration (fst (attempt duration count s))" by auto
  from s(2) have p: "points = fst (attempt duration count s)" by (metis fst_conv)
  from assms(2) have "0 \<le> count" by simp
  from attempt_points_bounds [OF s(1) this assms(3)] assms(5) p s(3)
  show ?thesis by (simp add: accepted_def)
qed

lemma returns_1100: "generate_random_points 1100 1 (sconst (31 / 32, True))
          = Some (Inr ([18325 / 16], sconst (31 / 32, True)))"
  by (subst grp_step)
     (simp_all add: count_with_overrun_def over_run_count_def attempt_sconst accepted_def
        fuzzed_time_def uniform_def fuzz_range_min_def)

text \<open>An instance: \<open>duration = 1100\<close>, \<open>count = 1\<close>, every draw \<open>(31/32, True)\<close>.\<close>

theorem generate_random_points_offset_bounds_witness:
  "valid_rng (sconst (31 / 32, True)) \<and> (1::int) \<le> 1 \<and> (1::int) + 21 \<le> 1100
   \<and> generate_random_points 1100 1 (sconst (31 / 32, True))
       = Some (Inr ([18325 / 16], sconst (31 / 32, True)))
   \<and> (18325 / 16 :: real) \<in> set [18325 / 16]
   \<and> (1::real) \<le> 18325 / 16
   \<and> (18325 / 16 :: real) \<le> mean_response_time 1100 1 + real_of_int (fuzz_range_max 1100 1)
   \<and> sum_list [18325 / 16 :: real] > real_of_int 1100"
proof -
  have v: "valid_rng (sconst (31 / 32, True))" by (simp add: valid_rng_sconst)
  from generate_random_points_offset_bounds [OF v _ _ returns_1100, of "18325 / 16"]
  show ?thesis using v returns_1100 by simp
qed

text \<open>
  The bound \<open>duration\<close> fails for \<open>duration = 86400\<close> and \<open>count = 1\<close>: with the draws
  \<open>(31/32, True)\<close> the mean is \<open>86400 / 11\<close>, the fuzz \<open>1 + 86378 * 31 / 32 = 83679.6875\<close>,
  and the single offset \<open>16110025 / 176\<close>, about 91534.23, is accepted and returned.
\<close>

theorem generate_random_points_offset_bounds_counterexample:
  "generate_random_points 86400 1 (sconst (31 / 32, True))
     = Some (Inr ([16110025 / 176], sconst (31 / 32, True)))
   \<and> \<not> (16110025 / 176 \<le> (86400 :: real))"
  by (subst grp_step)
     (simp_all add: count_with_overrun_def over_run_count_def attempt_sconst accepted_def
        fuzzed_time_def uniform_def fuzz_range_min_def)

lemma stake_numeral_SCons: "stake (numeral k) (x ## s) = x # stake (pred_numeral k) s"
  by (simp add: numeral_eq_Suc)

lemma sdrop_numeral_SCons: "sdrop (numeral k) (x ## s) = sdrop (pred_numeral k) s"
  by (simp add: numeral_eq_Suc)

text \<open>
  Why the lower bound needs \<open>duration \<ge> count + 21\<close>: for \<open>duration = 0\<close> and \<open>count = 2\<close>
  the range of the fuzz is \<open>uniform(1, -22)\<close>. With the draws \<open>(1/2, True)\<close> and
  \<open>(9/10, False)\<close> the offsets are \<open>0 + (1 - 23 / 2) = -10.5\<close> and
  \<open>max (0 - (1 - 23 * 9 / 10)) 1 = 19.7\<close>; their sum exceeds 0, so they are returned.
\<close>

lemma generate_random_points_inverted_range_example:
  "generate_random_points 0 2 ([(1 / 2, True), (9 / 10, False)] @- sconst (0, True))
     = Some (Inr ([- 21 / 2, 197 / 10], sconst (0, True)))
   \<and> \<not> (1 \<le> (- 21 / 2 :: real))"
proof -
  have "attempt 0 2 ([(1 / 2, True), (9 / 10, False)] @- sconst (0, True))
          = ([- 21 / 2, 197 / 10], sconst (0, True))"
    by (simp add: attempt_eq slice_to_def stake_numeral_SCons sdrop_numeral_SCons stake_sconst sdrop_sconst
        fuzzed_time_def uniform_def fuzz_range_min_def
        del: stake_siterate sdrop_siterate)
  then show ?thesis
    by (subst grp_step) (simp_all add: count_with_overrun_def over_run_count_def accepted_def)
qed

subsection \<open>The instants of a timeline\<close>

lemma round_half_even_ge_floor: "\<lfloor>x\<rfloor> \<le> round_half_even x"
  by (simp add: round_half_even_def Let_def)

lemma round_half_even_of_int: "round_half_even (real_of_int n) = n"
  by (simp add: round_half_even_def Let_def)

lemma timedelta_seconds_ge:
  assumes "1 \<le> delta"
  shows "1000000 \<le> timedelta 0 0 0 delta 0"
proof -
  have "(1000000::real) \<le> delta * 1000000" using assms by simp
  then have "(1000000::int) \<le> \<lfloor>delta * 1000000\<rfloor>" by (simp add: le_floor_iff)
  also have "\<dots> \<le> round_half_even (delta * 1000000)" by (rule round_half_even_ge_floor)
  finally show ?thesis by (simp add: timedelta_def)
qed

lemma py_int_total_seconds:
  "0 \<le> td \<Longrightarrow> py_int (total_seconds td) = td div 1000000"
  by (simp add: py_int_def total_seconds_def floor_divide_of_int_eq [where ?'a = real, symmetric])

lemma grp_length:
  assumes "0 \<le> count"
    and "generate_random_points duration count r = Some (Inr (points, r'))"
  shows "length points = nat count"
proof -
  from grp_returns [OF assms(2)] count_with_overrun_nonzero [OF assms(1)]
  obtain k where "(points, r') = nth_attempt duration count k r" by auto
  then have "points = fst (attempt duration count (rng_after duration count k r))"
    by (metis fst_conv nth_attempt_def)
  then show ?thesis using assms(1) by (simp add: attempt_length)
qed

text \<open>
  Claim C3, as the code has it. For \<open>start \<le> end\<close> and a positive \<open>count\<close>, whenever
  \<open>generate_random_message_datetimes\<close> returns, the list has \<open>count\<close> instants, each is
  \<open>start\<close> plus one of the offsets that \<open>generate_random_points\<close> returned for the whole
  seconds between \<open>start\<close> and \<open>end\<close>, and, when that duration is at least
  \<open>count + 21\<close> seconds, every instant is at least one second after \<open>start\<close>. The
  instants are not bounded by \<open>end\<close>.
\<close>

theorem generate_random_message_datetimes_length_and_start:
  assumes "valid_rng r" and "start \<le> end" and "1 \<le> count"
    and "generate_random_message_datetimes start end count r = Some (Inr (instants, r'))"
  shows "length instants = nat count
       \<and> (count + 21 \<le> (end - start) div 1000000 \<longrightarrow> (\<forall>t \<in> set instants. start + 1000000 \<le> t))
       \<and> (\<exists>deltas. generate_random_points ((end - start) div 1000000) count r = Some (Inr (deltas, r'))
              \<and> instants = map (\<lambda>delta. start + timedelta 0 0 0 delta 0) deltas)"
proof -
  let ?d = "(end - start) div 1000000"
  have td: "py_int (total_seconds (end - start)) = ?d"
    using assms(2) by (simp add: py_int_total_seconds)
  from assms(4) obtain deltas where g: "generate_random_points ?d count r = Some (Inr (deltas, r'))"
    and i: "instants = map (\<lambda>delta. start + timedelta 0 0 0 delta 0) deltas"
    by (auto simp: generate_random_message_datetimes_def td Let_def split: option.splits sum.splits)
  have "0 \<le> count" using assms(3) by simp
  have len: "length deltas = nat count"
    by (rule grp_length [OF \<open>0 \<le> count\<close> g])
  have lower: "\<forall>t \<in> set instants. start + 1000000 \<le> t" if big: "count + 21 \<le> ?d"
  proof
    fix t assume "t \<in> set instants"
    with i obtain delta where delta: "delta \<in> set deltas" "t = start + timedelta 0 0 0 delta 0"
      by auto
    have nz: "count_with_overrun count \<noteq> 0" by (rule count_with_overrun_nonzero [OF \<open>0 \<le> count\<close>])
    from grp_returns_attempt [OF g nz assms(1)] obtain s where s:
      "valid_rng s" "(deltas, r') = attempt ?d count s" by auto
    from s(2) have "deltas = fst (attempt ?d count s)" by (metis fst_conv)
    with attempt_points_bounds [OF s(1) \<open>0 \<le> count\<close> big, of delta] delta(1)
    have "1 \<le> delta" by simp
    from timedelta_seconds_ge [OF this] delta(2) show "start + 1000000 \<le> t" by simp
  qed
  have "length instants = nat count" using len i by simp
  moreover have "\<exists>deltas. generate_random_points ?d count r = Some (Inr (deltas, r'))
              \<and> instants = map (\<lambda>delta. start + timedelta 0 0 0 delta 0) deltas"
    using g i by blast
  ultimately show ?thesis using lower by simp
qed


text \<open>
  \<open>start\<close> is 2023-01-01T00:00:00 (738520 days after 0001-01-01), \<open>end\<close> is 1100 seconds
  later, \<open>count = 1\<close>, every draw is \<open>(31/32, True)\<close>: the offset is 1145.3125 seconds.
\<close>

lemma datetimes_1100:
  "generate_random_message_datetimes 63808128000000000 63808129100000000 1 (sconst (31 / 32, True))
     = Some (Inr ([63808129145312500], sconst (31 / 32, True)))"
proof -
  have "py_int (total_seconds (63808129100000000 - 63808128000000000)) = 1100"
    by (simp add: py_int_def total_seconds_def)
  moreover have "timedelta 0 0 0 (18325 / 16) 0 = 1145312500"
    by (simp add: timedelta_def round_half_even_def Let_def)
  ultimately show ?thesis
    by (simp add: generate_random_message_datetimes_def returns_1100)
qed

theorem generate_random_message_datetimes_length_and_start_witness:
  "valid_rng (sconst (31 / 32, True))
   \<and> (63808128000000000::int) \<le> 63808129100000000 \<and> (1::int) \<le> 1
   \<and> generate_random_message_datetimes 63808128000000000 63808129100000000 1 (sconst (31 / 32, True))
       = Some (Inr ([63808129145312500], sconst (31 / 32, True)))
   \<and> length [63808129145312500 :: int] = nat 1
   \<and> (1::int) + 21 \<le> (63808129100000000 - 63808128000000000) div 1000000
   \<and> (63808128000000000::int) + 1000000 \<le> 63808129145312500"
proof -
  have v: "valid_rng (sconst (31 / 32, True))" by (simp add: valid_rng_sconst)
  from generate_random_message_datetimes_length_and_start [OF v _ _ datetimes_1100]
  show ?thesis using v datetimes_1100 by simp
qed

text \<open>The returned instant, 2023-01-01T00:19:05.3125, lies after \<open>end\<close>, 2023-01-01T00:18:20.\<close>

theorem generate_random_message_datetimes_containment_counterexample:
  "generate_random_message_datetimes 63808128000000000 63808129100000000 1 (sconst (31 / 32, True))
     = Some (Inr ([63808129145312500], sconst (31 / 32, True)))
   \<and> \<not> (63808129145312500 \<le> (63808129100000000 :: int))"
  using datetimes_1100 by simp

subsection \<open>The message count\<close>

lemma bisect_right_same: "bisect_right a x lo lo = lo"
  by (subst bisect_right.simps) simp

lemma bisect_right_step:
  "lo < hi \<Longrightarrow> bisect_right a x lo hi =
     (if x < a ! ((lo + hi) div 2) then bisect_right a x lo ((lo + hi) div 2)
      else bisect_right a x ((lo + hi) div 2 + 1) hi)"
  by (subst bisect_right.simps) (simp add: Let_def)

lemma bisect_right_Suc: "bisect_right a x lo (Suc lo) = (if x < a ! lo then lo else Suc lo)"
  by (simp add: bisect_right_step bisect_right_same)

lemma bisect_right_0_3:
  "bisect_right a x 0 (Suc (Suc (Suc 0))) =
     (if x < a ! Suc 0 then (if x < a ! 0 then 0 else Suc 0)
      else (if x < a ! Suc (Suc 0) then Suc (Suc 0) else Suc (Suc (Suc 0))))"
  using bisect_right_step [of 0 "Suc (Suc (Suc 0))" a x] by (simp add: bisect_right_Suc)

lemma choices_two:
  "choices [1, 2 :: int] [0.5, 0.5] u = Inr (if u < 1 / 2 then 1 else 2)"
  by (simp add: choices_def accumulate_def Let_def bisect_right_Suc)

lemma choices_four:
  "choices [1, 2, 3, 4 :: int] [0.3, 0.3, 0.2, 0.2] u =
     Inr (if u < 3 / 10 then 1 else if u < 6 / 10 then 2 else if u < 8 / 10 then 3 else 4)"
  by (simp add: choices_def accumulate_def Let_def bisect_right_0_3)

lemma weighted_random_message_count_eq:
  "weighted_random_message_count u1 u2 g =
     Inr (if u1 < 1 / 2
          then (if u2 < 3 / 10 then 1 else if u2 < 6 / 10 then 2 else if u2 < 8 / 10 then 3 else 4)
          else max 1 (min 50 (py_int g)))"
  unfolding weighted_random_message_count_def choices_two choices_four
  by (simp add: bind_error_def Let_def)

text \<open>
  Claim C7. \<open>weighted_random_message_count\<close> raises nothing and returns an integer between
  1 and 50: when the first weighted choice yields 1 (that is, \<open>u1 < 1/2\<close>) a member of
  \<open>{1, 2, 3, 4}\<close>, otherwise the \<open>gauss(25, 10)\<close> draw truncated to an integer and clamped
  to \<open>[1, 50]\<close>.
\<close>

theorem weighted_random_message_count_range:
  "\<exists>v. weighted_random_message_count u1 u2 g = Inr v \<and> 1 \<le> v \<and> v \<le> 50
       \<and> (if u1 < 1 / 2 then v \<in> {1, 2, 3, 4} else v = max 1 (min 50 (py_int g)))"
  by (simp add: weighted_random_message_count_eq)

subsection \<open>The style identifiers\<close>

lemma sequence_error_map_Inr:
  "(\<And>x. x \<in> set xs \<Longrightarrow> f x = Inr (g x)) \<Longrightarrow> sequence_error (map f xs) = Inr (map g xs)"
  by (induction xs) (simp_all add: bind_error_def)

lemma getitem_in_range: "i < length xs \<Longrightarrow> getitem xs (int i) = Inr (xs ! i)"
  by (simp add: getitem_def)

lemma py_range_positive:
  assumes "0 < st" and "0 < L"
  shows "py_range 0 (int L) (int st) = Inr (map (\<lambda>i. int (i * st)) [0..<(L - 1) div st + 1])"
proof -
  have "int L - 1 = int (L - 1)" using assms(2) by simp
  moreover have "int ((L - 1) div st + 1) = int (L - 1) div int st + 1"
    by (simp only: of_nat_add of_nat_1 zdiv_int)
  ultimately have "(int L - 1) div int st + 1 = int ((L - 1) div st + 1)"
    by (simp only:)
  then have "nat ((int L - 1) div int st + 1) = (L - 1) div st + 1"
    by (simp only: nat_int)
  then show ?thesis using assms by (simp add: py_range_def Let_def)
qed

lemma take_map_upt: "N \<le> M \<Longrightarrow> take N (map f [0..<M]) = map f [0..<N]"
  by (simp add: take_map)

lemma slice_to_int: "slice_to (int N) xs = take N xs"
  by (simp add: slice_to_def)

lemma style_ids_selected:
  assumes "1 \<le> n" and "n \<le> int (length S)"
  shows "generate_distant_style_ids S n =
           Inr (map (\<lambda>i. fst (S ! (i * (length S div nat n)))) [0..<nat n])"
proof -
  define N where "N = nat n"
  define L where "L = length S"
  define st where "st = L div N"
  let ?ids = "map fst S"
  have n: "n = int N" using assms(1) by (simp add: N_def)
  have N: "0 < N" "N \<le> L" using assms by (simp_all add: N_def L_def)
  then have Lpos: "0 < L" by simp
  have stpos: "0 < st" using N by (simp add: st_def div_greater_zero_iff)
  have Nst: "N * st \<le> L" by (simp add: st_def)
  have step: "int (length S) div n = int st"
    by (simp add: n st_def L_def zdiv_int)
  have r: "py_range 0 (int (length S)) (int st)
         = Inr (map (\<lambda>i. int (i * st)) [0..<(L - 1) div st + 1])"
    using py_range_positive [OF stpos Lpos] by (simp add: L_def)
  have inr: "getitem ?ids j = Inr (?ids ! nat j)"
    if "j \<in> set (map (\<lambda>i. int (i * st)) [0..<(L - 1) div st + 1])" for j
  proof -
    from that obtain i where i0: "i \<in> set [0..<(L - 1) div st + 1]" and i: "j = int (i * st)"
      unfolding set_map by blast
    from i0 have "i \<le> (L - 1) div st" by auto
    then have "i * st \<le> (L - 1) div st * st" by simp
    also have "\<dots> \<le> L - 1" by simp
    finally have "i * st \<le> L - 1" .
    with Lpos have "i * st < L" by linarith
    then have "i * st < length ?ids" by (simp add: L_def)
    then have "getitem ?ids (int (i * st)) = Inr (?ids ! (i * st))" by (rule getitem_in_range)
    then show ?thesis by (simp only: i nat_int)
  qed
  have s: "sequence_error (map (getitem ?ids) (map (\<lambda>i. int (i * st)) [0..<(L - 1) div st + 1]))
        = Inr (map (\<lambda>j. ?ids ! nat j) (map (\<lambda>i. int (i * st)) [0..<(L - 1) div st + 1]))"
    by (rule sequence_error_map_Inr) (rule inr)
  have mn: "N \<le> (L - 1) div st + 1"
  proof -
    have "(N - 1) * st + st = N * st" using N(1) by (simp add: algebra_simps mult_eq_if)
    with Nst stpos have "(N - 1) * st \<le> L - 1" by linarith
    then have "N - 1 \<le> (L - 1) div st"
      using stpos by (simp add: less_eq_div_iff_mult_less_eq)
    then show ?thesis by simp
  qed
  have "generate_distant_style_ids S n =
      bind_error (py_range 0 (int (length S)) (int (length S) div n)) (\<lambda>selected_indices.
        bind_error (sequence_error (map (getitem ?ids) selected_indices)) (\<lambda>ids.
          Inr (slice_to n ids)))"
    using assms(1,2) by (simp add: generate_distant_style_ids_def Let_def)
  also have "\<dots> =
      Inr (slice_to n (map (\<lambda>j. ?ids ! nat j) (map (\<lambda>i. int (i * st)) [0..<(L - 1) div st + 1])))"
    by (simp only: step r s bind_error_def sum.case)
  also have "slice_to n (map (\<lambda>j. ?ids ! nat j) (map (\<lambda>i. int (i * st)) [0..<(L - 1) div st + 1]))
      = map (\<lambda>i. ?ids ! (i * st)) [0..<N]"
  proof -
    have "map (\<lambda>j. ?ids ! nat j) (map (\<lambda>i. int (i * st)) [0..<(L - 1) div st + 1])
        = map (\<lambda>i. ?ids ! (i * st)) [0..<(L - 1) div st + 1]"
      by (simp only: map_map o_def nat_int)
    then show ?thesis
      by (simp only: n slice_to_int take_map_upt [OF mn])
  qed
  also have "\<dots> = map (\<lambda>i. fst (S ! (i * st))) [0..<N]"
  proof (rule map_cong [OF refl])
    fix i assume "i \<in> set [0..<N]"
    then have "i + 1 \<le> N" by simp
    then have "(i + 1) * st \<le> N * st" by (rule mult_le_mono1)
    with Nst have "i * st + st \<le> L" by (simp add: algebra_simps)
    with stpos have "i * st < L" by linarith
    then have "i * st < length S" by (simp add: L_def)
    then show "?ids ! (i * st) = fst (S ! (i * st))" by simp
  qed
  finally show ?thesis by (simp add: st_def N_def L_def)
qed

lemma style_ids_too_many:
  "int (length S) < n \<Longrightarrow> generate_distant_style_ids S n = Inl ValueError"
  by (simp add: generate_distant_style_ids_def)

text \<open>
  Claim C8, as the code has it. For every \<open>n\<close> above the number of available style
  identifiers, \<open>generate_distant_style_ids\<close> raises \<open>ValueError\<close> at once. For every \<open>n\<close>
  from 1 up to that number it returns exactly \<open>n\<close> identifiers, all of them available ones:
  those at the positions \<open>0, step, 2 * step, \<dots>\<close> of the key list, where \<open>step\<close> is the
  number of keys divided by \<open>n\<close>, rounded down.
\<close>

theorem generate_distant_style_ids_result:
  "(int (length S) < n \<longrightarrow> generate_distant_style_ids S n = Inl ValueError)
   \<and> (1 \<le> n \<and> n \<le> int (length S) \<longrightarrow>
        (\<exists>ids. generate_distant_style_ids S n = Inr ids
              \<and> length ids = nat n
              \<and> set ids \<subseteq> fst ` set S
              \<and> ids = map (\<lambda>i. fst (S ! (i * (length S div nat n)))) [0..<nat n]))"
proof (intro conjI impI)
  assume "int (length S) < n"
  then show "generate_distant_style_ids S n = Inl ValueError" by (rule style_ids_too_many)
next
  assume a: "1 \<le> n \<and> n \<le> int (length S)"
  let ?ids = "map (\<lambda>i. fst (S ! (i * (length S div nat n)))) [0..<nat n]"
  have e: "generate_distant_style_ids S n = Inr ?ids"
    using a by (simp add: style_ids_selected)
  have "set ?ids \<subseteq> fst ` set S"
  proof
    fix x assume "x \<in> set ?ids"
    then obtain i where i: "i < nat n" "x = fst (S ! (i * (length S div nat n)))" by auto
    have "nat n * (length S div nat n) \<le> length S" by simp
    moreover have "(i + 1) * (length S div nat n) \<le> nat n * (length S div nat n)"
      using i(1) by (intro mult_le_mono1) simp
    moreover have "0 < length S div nat n"
    proof -
      from a have "nat n \<le> length S" "0 < nat n" by linarith+
      then show ?thesis by (simp add: div_greater_zero_iff)
    qed
    moreover have "(i + 1) * (length S div nat n) = i * (length S div nat n) + length S div nat n"
      by simp
    ultimately have "i * (length S div nat n) < length S" by linarith
    then show "x \<in> fst ` set S" using i(2) by simp
  qed
  then show "\<exists>ids. generate_distant_style_ids S n = Inr ids
              \<and> length ids = nat n
              \<and> set ids \<subseteq> fst ` set S
              \<and> ids = map (\<lambda>i. fst (S ! (i * (length S div nat n)))) [0..<nat n]"
    using e by simp
qed

text \<open>Five styles: six identifiers are refused, two are the first and the third key.\<close>

theorem generate_distant_style_ids_result_witness:
  "int (length [(1::int, ''a''), (2, ''b''), (3, ''c''), (4, ''d''), (5, ''e'')]) < 6
   \<and> generate_distant_style_ids [(1, ''a''), (2, ''b''), (3, ''c''), (4, ''d''), (5, ''e'')] 6 = Inl ValueError
   \<and> (1::int) \<le> 2 \<and> 2 \<le> int (length [(1::int, ''a''), (2, ''b''), (3, ''c''), (4, ''d''), (5, ''e'')])
   \<and> generate_distant_style_ids [(1, ''a''), (2, ''b''), (3, ''c''), (4, ''d''), (5, ''e'')] 2 = Inr [1, 3]"
proof -
  let ?S = "[(1::int, ''a''), (2, ''b''), (3, ''c''), (4, ''d''), (5, ''e'')]"
  have "map (\<lambda>i. fst (?S ! (i * (length ?S div nat 2)))) [0..<nat 2] = [1, 3]"
    by code_simp
  with generate_distant_style_ids_result [of ?S 2] generate_distant_style_ids_result [of ?S 6]
  show ?thesis by auto
qed

text \<open>
  \<open>n = 0\<close> is at most the number of identifiers, but the call does not return the empty
  list: \<open>len(available_ids) // n\<close> raises \<open>ZeroDivisionError\<close>.
\<close>

theorem generate_distant_style_ids_zero_counterexample:
  "(0::int) \<le> int (length [(1::int, ''a''), (2, ''b''), (3, ''c'')])
   \<and> generate_distant_style_ids [(1, ''a''), (2, ''b''), (3, ''c'')] 0 = Inl ZeroDivisionError"
  by (simp add: generate_distant_style_ids_def)

subsection \<open>The send time of a generated message\<close>

lemma bind_error_InrE:
  assumes "bind_error m f = Inr y"
  obtains x where "m = Inr x" and "f x = Inr y"
  using assms by (cases m) (simp_all add: bind_error_def)

lemma generate_message_fields:
  assumes "generate_message cfg dr ref_dt participant_uuid exhibit_uuid' platform_name' = Inr (msg, attachments)"
  shows "sent_status msg = (sent_random dr < SENT_LIKELIHOOD cfg)"
    and "send_datetime msg = (if sent_random dr < SENT_LIKELIHOOD cfg then Some ref_dt else None)"
proof -
  from assms obtain dd rd deld body where
    "msg = \<lparr>sender_uuid = participant_uuid, uuid = message_uuid4 dr,
            has_attachment = (attachment_random dr < ATTACHMENT_LIKELIHOOD cfg),
            send_datetime = (if sent_random dr < SENT_LIKELIHOOD cfg then Some ref_dt else None),
            sent_status = (sent_random dr < SENT_LIKELIHOOD cfg), msg_text = body,
            delivered_datetime = dd,
            delivered_status = (sent_random dr < SENT_LIKELIHOOD cfg \<and> delivered_random dr < DELIVERED_LIKELIHOOD cfg),
            read_datetime = rd,
            read_status = ((sent_random dr < SENT_LIKELIHOOD cfg \<and> delivered_random dr < DELIVERED_LIKELIHOOD cfg)
                             \<and> read_random dr < READ_LIKELIHOOD cfg),
            deleted_datetime = deld,
            deleted_status = (deleted_random dr < DELETED_LIKELIHOOD cfg),
            platform_name = platform_name', exhibit_uuid = exhibit_uuid'\<rparr>"
    unfolding generate_message_def Let_def
    by (elim bind_error_InrE) auto
  then show "sent_status msg = (sent_random dr < SENT_LIKELIHOOD cfg)"
    and "send_datetime msg = (if sent_random dr < SENT_LIKELIHOOD cfg then Some ref_dt else None)"
    by simp_all
qed


lemma sequence_error_total:
  "(\<And>x. x \<in> set xs \<Longrightarrow> \<exists>y. f x = Inr y) \<Longrightarrow> \<exists>ys. sequence_error (map f xs) = Inr ys"
proof (induction xs)
  case Nil
  then show ?case by simp
next
  case (Cons a xs)
  then obtain y ys where "f a = Inr y" "sequence_error (map f xs) = Inr ys"
    by (metis list.set_intros(1) list.set_intros(2))
  then show ?case by (simp add: bind_error_def)
qed

lemma delayed_datetime_total:
  assumes "map_of (MESSAGE_TIMING cfg) key = Some (a, b)" and "a \<le> b"
  shows "\<exists>d. delayed_datetime cfg status key ref_dt k = Inr d"
  using assms by (simp add: delayed_datetime_def lookup_def randint_def bind_error_def)

lemma generate_attachment_total:
  assumes "ATTACHMENT_TYPES cfg \<noteq> []"
    and "\<forall>entry \<in> set (ATTACHMENT_TYPES cfg). files (snd entry) \<noteq> []"
  shows "\<exists>att. bind_error (random_choice (map fst (ATTACHMENT_TYPES cfg)) type_draw)
            (\<lambda>attachment_type. generate_attachment cfg attachment_type mu su file_draw uuid4) = Inr att"
proof -
  define keys where "keys = map fst (ATTACHMENT_TYPES cfg)"
  define k where "k = keys ! (type_draw mod length keys)"
  have ne: "keys \<noteq> []" using assms(1) by (simp add: keys_def)
  have c: "random_choice (map fst (ATTACHMENT_TYPES cfg)) type_draw = Inr k"
    using ne by (simp add: random_choice_def k_def keys_def)
  have "k \<in> set keys" using ne by (simp add: k_def)
  then have "k \<in> fst ` set (ATTACHMENT_TYPES cfg)" by (simp add: keys_def)
  then obtain tc where tc: "map_of (ATTACHMENT_TYPES cfg) k = Some tc"
    by (metis domIff dom_map_of_conv_image_fst not_Some_eq)
  then have "(k, tc) \<in> set (ATTACHMENT_TYPES cfg)" by (rule map_of_SomeD)
  with assms(2) have "files tc \<noteq> []" by fastforce
  then show ?thesis
    unfolding c by (simp add: bind_error_def generate_attachment_def lookup_def tc random_choice_def Let_def)
qed

lemma generate_message_total:
  assumes "valid_config cfg"
  shows "\<exists>msg attachments.
           generate_message cfg dr ref_dt participant_uuid exhibit_uuid' platform_name' = Inr (msg, attachments)"
proof -
  from assms obtain a1 b1 a2 b2 a3 b3 where t:
    "map_of (MESSAGE_TIMING cfg) ''DELIVERY_DELAY'' = Some (a1, b1)" "a1 \<le> b1"
    "map_of (MESSAGE_TIMING cfg) ''READ_DELAY'' = Some (a2, b2)" "a2 \<le> b2"
    "map_of (MESSAGE_TIMING cfg) ''DELETE_DELAY'' = Some (a3, b3)" "a3 \<le> b3"
    unfolding valid_config_def by (metis insertI1 insertI2)
  from assms have texts: "MESSAGE_TEXTS cfg \<noteq> []"
    and types: "ATTACHMENT_TYPES cfg \<noteq> []" "\<forall>entry \<in> set (ATTACHMENT_TYPES cfg). files (snd entry) \<noteq> []"
    by (simp_all add: valid_config_def)
  have d1: "\<exists>d. delayed_datetime cfg s ''DELIVERY_DELAY'' ref_dt k = Inr d" for s k
    by (rule delayed_datetime_total [OF t(1,2)])
  have d2: "\<exists>d. delayed_datetime cfg s ''READ_DELAY'' ref_dt k = Inr d" for s k
    by (rule delayed_datetime_total [OF t(3,4)])
  have d3: "\<exists>d. delayed_datetime cfg s ''DELETE_DELAY'' ref_dt k = Inr d" for s k
    by (rule delayed_datetime_total [OF t(5,6)])
  have atts: "\<exists>ys. sequence_error
                   (map (\<lambda>i. case attachment_draws dr i of
                               (type_draw, file_draw, uuid4) \<Rightarrow>
                                 bind_error (random_choice (map fst (ATTACHMENT_TYPES cfg)) type_draw)
                                   (\<lambda>attachment_type.
                                      generate_attachment cfg attachment_type (message_uuid4 dr)
                                        participant_uuid file_draw uuid4))
                      [0..<n]) = Inr ys" for n
  proof (rule sequence_error_total)
    fix i
    obtain td fd u where "attachment_draws dr i = (td, fd, u)" by (cases "attachment_draws dr i") auto
    then show "\<exists>y. (case attachment_draws dr i of
                               (type_draw, file_draw, uuid4) \<Rightarrow>
                                 bind_error (random_choice (map fst (ATTACHMENT_TYPES cfg)) type_draw)
                                   (\<lambda>attachment_type.
                                      generate_attachment cfg attachment_type (message_uuid4 dr)
                                        participant_uuid file_draw uuid4)) = Inr y"
      using generate_attachment_total [OF types] by simp
  qed
  have tx: "\<exists>y. random_choice (MESSAGE_TEXTS cfg) (text_draw dr) = Inr y"
    using texts by (simp add: random_choice_def)
  let ?sent = "sent_random dr < SENT_LIKELIHOOD cfg"
  let ?ds = "?sent \<and> delivered_random dr < DELIVERED_LIKELIHOOD cfg"
  let ?rs = "?ds \<and> read_random dr < READ_LIKELIHOOD cfg"
  let ?del = "deleted_random dr < DELETED_LIKELIHOOD cfg"
  let ?att = "if attachment_random dr < ATTACHMENT_LIKELIHOOD cfg
            then bind_error (randint 1 4 (attachment_count_draw dr)) (\<lambda>attachment_count.
                 sequence_error
                   (map (\<lambda>i. case attachment_draws dr i of
                               (type_draw, file_draw, uuid4) \<Rightarrow>
                                 bind_error (random_choice (map fst (ATTACHMENT_TYPES cfg)) type_draw)
                                   (\<lambda>attachment_type.
                                      generate_attachment cfg attachment_type (message_uuid4 dr)
                                        participant_uuid file_draw uuid4))
                      [0..<nat attachment_count]))
            else Inr []"
  from d1 obtain dd where dd:
    "delayed_datetime cfg ?ds ''DELIVERY_DELAY'' ref_dt (delivery_delay_draw dr) = Inr dd" by blast
  from d2 obtain rd where rd:
    "delayed_datetime cfg ?rs ''READ_DELAY'' ref_dt (read_delay_draw dr) = Inr rd" by blast
  from d3 obtain deld where deld:
    "delayed_datetime cfg ?del ''DELETE_DELAY'' ref_dt (delete_delay_draw dr) = Inr deld" by blast
  have "\<exists>ys. ?att = Inr ys"
  proof (cases "attachment_random dr < ATTACHMENT_LIKELIHOOD cfg")
    case True
    have "randint 1 4 (attachment_count_draw dr) = Inr (1 + int (attachment_count_draw dr mod 4))"
      by (simp add: randint_def)
    with True atts [of "nat (1 + int (attachment_count_draw dr mod 4))"] show ?thesis
      by (simp only: if_True bind_error_def sum.case)
  next
    case False
    then show ?thesis by simp
  qed
  then obtain ys where ys: "?att = Inr ys" by blast
  from tx obtain body where body: "random_choice (MESSAGE_TEXTS cfg) (text_draw dr) = Inr body" by blast
  show ?thesis
    unfolding generate_message_def Let_def dd rd deld ys body
    by (simp add: bind_error_def)
qed

text \<open>
  Claim C9. Whenever \<open>generate_message\<close> returns a message, its \<open>sent_status\<close> is the
  outcome of \<open>random.random() < SENT_LIKELIHOOD\<close>, and its \<open>send_datetime\<close> is \<open>ref_dt\<close>
  if and only if \<open>sent_status\<close> is true and is \<open>None\<close> otherwise. A message that is not
  sent has no send time, although the messages are then sorted by \<open>send_datetime\<close> (which
  raises \<open>TypeError\<close> as soon as such a message is compared with another one) and keyed by
  \<open>send_datetime.isoformat()\<close> in \<open>save\<close> (which raises \<open>AttributeError\<close>). Under a valid
  configuration the call returns, and it returns a message without send time for every draw
  that is not below \<open>SENT_LIKELIHOOD\<close>.
\<close>

theorem generate_message_send_datetime:
  "(generate_message cfg dr ref_dt participant_uuid exhibit_uuid' platform_name' = Inr (msg, attachments) \<longrightarrow>
       sent_status msg = (sent_random dr < SENT_LIKELIHOOD cfg)
     \<and> send_datetime msg = (if sent_status msg then Some ref_dt else None)
     \<and> (send_datetime msg = Some ref_dt \<longleftrightarrow> sent_status msg)
     \<and> (\<not> sent_status msg \<longrightarrow>
            send_datetime msg = None
          \<and> messages_dict [msg] Map.empty = Inl AttributeError
          \<and> sort_messages [msg, other] = Inl TypeError))
   \<and> (valid_config cfg \<longrightarrow>
        (\<exists>m as. generate_message cfg dr ref_dt participant_uuid exhibit_uuid' platform_name' = Inr (m, as)
           \<and> (\<not> sent_random dr < SENT_LIKELIHOOD cfg \<longrightarrow> send_datetime m = None)))"
proof (intro conjI impI)
  assume a: "generate_message cfg dr ref_dt participant_uuid exhibit_uuid' platform_name' = Inr (msg, attachments)"
  note f = generate_message_fields [OF a]
  show "sent_status msg = (sent_random dr < SENT_LIKELIHOOD cfg)" by (rule f(1))
  show "send_datetime msg = (if sent_status msg then Some ref_dt else None)" using f by simp
  show "send_datetime msg = Some ref_dt \<longleftrightarrow> sent_status msg" using f by simp
  assume n: "\<not> sent_status msg"
  then show "send_datetime msg = None" using f by simp
  then show "messages_dict [msg] Map.empty = Inl AttributeError" by simp
  show "sort_messages [msg, other] = Inl TypeError"
    using \<open>send_datetime msg = None\<close> by (simp add: sort_messages_def)
next
  assume "valid_config cfg"
  from generate_message_total [OF this] obtain m as where
    g: "generate_message cfg dr ref_dt participant_uuid exhibit_uuid' platform_name' = Inr (m, as)"
    by blast
  from generate_message_fields(2) [OF g] have "\<not> sent_random dr < SENT_LIKELIHOOD cfg \<longrightarrow> send_datetime m = None"
    by simp
  with g show "\<exists>m as. generate_message cfg dr ref_dt participant_uuid exhibit_uuid' platform_name' = Inr (m, as)
           \<and> (\<not> sent_random dr < SENT_LIKELIHOOD cfg \<longrightarrow> send_datetime m = None)"
    by blast
qed

text \<open>
  An instance with a sample configuration (the configuration module is not part of the
  sources): \<open>SENT_LIKELIHOOD = 0.9\<close> and the draw 0.95.
\<close>

theorem generate_message_send_datetime_witness:
  "valid_config
     \<lparr>ATTACHMENT_LIKELIHOOD = 1 / 5, SENT_LIKELIHOOD = 9 / 10, DELIVERED_LIKELIHOOD = 9 / 10,
      READ_LIKELIHOOD = 4 / 5, DELETED_LIKELIHOOD = 1 / 10,
      MESSAGE_TIMING = [(''DELIVERY_DELAY'', 1, 5), (''READ_DELAY'', 5, 300), (''DELETE_DELAY'', 60, 3600)],
      ATTACHMENT_TYPES = [(''image'', \<lparr>files = [''a.png''], path = ''attachments/images''\<rparr>)],
      MESSAGE_TEXTS = [''hello'']\<rparr>
   \<and> generate_message
       \<lparr>ATTACHMENT_LIKELIHOOD = 1 / 5, SENT_LIKELIHOOD = 9 / 10, DELIVERED_LIKELIHOOD = 9 / 10,
        READ_LIKELIHOOD = 4 / 5, DELETED_LIKELIHOOD = 1 / 10,
        MESSAGE_TIMING = [(''DELIVERY_DELAY'', 1, 5), (''READ_DELAY'', 5, 300), (''DELETE_DELAY'', 60, 3600)],
        ATTACHMENT_TYPES = [(''image'', \<lparr>files = [''a.png''], path = ''attachments/images''\<rparr>)],
        MESSAGE_TEXTS = [''hello'']\<rparr>
       \<lparr>message_uuid4 = ''m1'', attachment_random = 1 / 2, sent_random = 19 / 20,
        delivered_random = 0, delivery_delay_draw = 0, read_random = 0, read_delay_draw = 0,
        deleted_random = 1 / 2, delete_delay_draw = 0, attachment_count_draw = 0,
        attachment_draws = (\<lambda>i. (0, 0, ''a1'')), text_draw = 0\<rparr>
       63808128000000000 ''p1'' ''e1'' ''chat''
     = Inr (\<lparr>sender_uuid = ''p1'', uuid = ''m1'', has_attachment = False, send_datetime = None,
              sent_status = False, msg_text = ''hello'', delivered_datetime = None,
              delivered_status = False, read_datetime = None, read_status = False,
              deleted_datetime = None, deleted_status = False, platform_name = ''chat'',
              exhibit_uuid = ''e1''\<rparr>, [])
   \<and> messages_dict
       [\<lparr>sender_uuid = ''p1'', uuid = ''m1'', has_attachment = False, send_datetime = None,
              sent_status = False, msg_text = ''hello'', delivered_datetime = None,
              delivered_status = False, read_datetime = None, read_status = False,
              deleted_datetime = None, deleted_status = False, platform_name = ''chat'',
              exhibit_uuid = ''e1''\<rparr>] Map.empty = Inl AttributeError"
  (is "valid_config ?cfg \<and> generate_message ?cfg ?dr ?t ?p ?e ?pl = Inr (?msg, []) \<and> _")
proof -
  have v: "valid_config ?cfg" by (simp add: valid_config_def)
  have g: "generate_message ?cfg ?dr ?t ?p ?e ?pl = Inr (?msg, [])"
    by (simp add: generate_message_def delayed_datetime_def bind_error_def random_choice_def Let_def)
  from generate_message_send_datetime [of ?cfg ?dr ?t ?p ?e ?pl ?msg "[]"] g
  have "messages_dict [?msg] Map.empty = Inl AttributeError" by simp
  with v g show ?thesis by simp
qed

subsection \<open>The exhibit number\<close>

lemma allowed_chars_nonempty: "allowed_chars \<noteq> []"
  by (simp add: allowed_chars_def remove_char_def)

lemma generate_random_exhibit_ID_total:
  "generate_random_exhibit_ID ks =
     Inr (map (\<lambda>i. allowed_chars ! (ks i mod length allowed_chars)) [0..<6])"
  unfolding generate_random_exhibit_ID_def
  by (rule sequence_error_map_Inr) (simp add: random_choice_def allowed_chars_nonempty)

lemma randint_ok: "a \<le> b \<Longrightarrow> randint a b k = Inr (a + int (k mod nat (b - a + 1)))"
  by (simp add: randint_def)

lemma randint_1_20_range: "1 \<le> 1 + int (k mod nat (20 - 1 + 1)) \<and> 1 + int (k mod nat (20 - 1 + 1)) \<le> 20"
proof -
  have "k mod 20 < 20" by simp
  then show ?thesis by (simp del: mod_less_divisor)
qed

text \<open>
  Claim C10. \<open>generate_exhibit\<close> always returns an exhibit, and the \<open>exhibit_number\<close> of
  that exhibit is a one-element tuple holding the result \<open>n\<close> of \<open>random.randint(1, 20)\<close>,
  not an integer as the annotation \<open>exhibit_number: int\<close> of the data class says. The name
  is built from the first element of the tuple: it is the case number, an underscore, \<open>n\<close>
  in decimal, and the police number in parentheses.
\<close>

theorem generate_exhibit_number_is_tuple:
  "\<exists>e n. generate_exhibit now dr case_data = Inr e
         \<and> 1 \<le> n \<and> n \<le> 20
         \<and> exhibit_number e = PyTuple [n]
         \<and> exhibit_number_annotation = TInt
         \<and> \<not> isinstance (exhibit_number e) exhibit_number_annotation
         \<and> subscript (exhibit_number e) 0 = Inr (PyInt n)
         \<and> name e = case_number case_data @ ''_'' @ str_int n @ '' ('' @ police_number e @ '')''"
proof -
  let ?n = "1 + int (exhibit_number_draw dr mod nat (20 - 1 + 1))"
  let ?id = "map (\<lambda>i. allowed_chars ! (police_id_draws dr i mod length allowed_chars)) [0..<6]"
  let ?date = "now - timedelta (real_of_int (1 + int (days_draw dr mod nat (5 - 1 + 1))))
                 (real_of_int (1 + int (hours_draw dr mod nat (24 - 1 + 1))))
                 (real_of_int (1 + int (minutes_draw dr mod nat (61 - 1 + 1))))
                 (real_of_int (1 + int (seconds_draw dr mod nat (61 - 1 + 1))))
                 (real_of_int (1 + int (milliseconds_draw dr mod nat (1001 - 1 + 1))))"
  let ?e = "\<lparr>Exhibit.uuid = exhibit_uuid4 dr, case_id = case_number case_data,
             exhibit_number = PyTuple [?n], police_number = ?id, extraction_date = ?date,
             name = case_number case_data @ ''_'' @ str_int ?n @ '' ('' @ ?id @ '')''\<rparr>"
  have "generate_exhibit now dr case_data = Inr ?e"
    unfolding generate_exhibit_def Let_def generate_random_exhibit_ID_total
    by (simp add: bind_error_def randint_def getitem_def)
  moreover have "1 \<le> ?n \<and> ?n \<le> 20" by (rule randint_1_20_range)
  moreover have "\<not> isinstance (exhibit_number ?e) exhibit_number_annotation"
    by (simp add: exhibit_number_annotation_def)
  moreover have "subscript (exhibit_number ?e) 0 = Inr (PyInt ?n)"
    by (simp add: bind_error_def getitem_def)
  ultimately show ?thesis
    by (intro exI [of _ ?e] exI [of _ ?n]) (simp add: exhibit_number_annotation_def)
qed

text \<open>The values computed for one choice of draws.\<close>

lemma generate_exhibit_example:
  "map_sum id (\<lambda>e. (exhibit_number e, name e))
     (generate_exhibit 63808128000000000
        \<lparr>exhibit_uuid4 = ''u1'', police_id_draws = (\<lambda>i. i), exhibit_number_draw = 6,
          days_draw = 0, hours_draw = 0, minutes_draw = 0, seconds_draw = 0,
          milliseconds_draw = 0\<rparr>
        \<lparr>file_number = ''230001/1000'', case_number = ''HTCG24001'', operation_name = ''op'',
          start_date = 0, end_date = 0, exhibits_used = [], case_notes = ''n''\<rparr>)
   = Inr (PyTuple [7], ''HTCG24001_7 (abcdef)'')"
  by code_simp

end
